theory Spec2Isabelle
  imports Main "HOL-Library.Word"
begin

unbundle bit_operations_syntax

section \<open>The IVF writer of pkg/media/ivfwriter\<close>

text \<open>
  A shallow embedding of \<^verbatim>\<open>src/pkg/media/ivfwriter/ivfwriter.go\<close>. The Go methods mutate
  the writer through a pointer and write to an \<^verbatim>\<open>io.Writer\<close>; here every operation takes
  the writer record and the sink and returns both, together with the error (\<open>None\<close> is
  Go's \<^verbatim>\<open>nil\<close> error).
\<close>

subsection \<open>Bytes and errors\<close>

type_synonym byte = "8 word"
type_synonym bytes = "byte list"

text \<open>
  The four errors the package declares, the errors of its collaborators (the payload
  parsers of pion/rtp and the sink), and the run-time panic of an index out of range.
\<close>

datatype error =
    errFileNotOpened
  | errInvalidNilPacket
  | errCodecAlreadySet
  | errNoSuchCodec
  | errUnmarshal
  | errReadFrames
  | errWrite
  | errSeek
  | errClose
  | panicIndexOutOfRange

subsection \<open>The sink behind \<^verbatim>\<open>io.Writer\<close>\<close>

text \<open>
  The sink is the object the writer's \<^verbatim>\<open>ioWriter\<close> field points to; it outlives the
  reference, so it is kept beside the writer, not inside it. \<open>content\<close> is what has been
  stored, \<open>offset\<close> the position of the next Write. \<open>isSeeker\<close> and \<open>isCloser\<close> say
  whether the type assertions \<^verbatim>\<open>.(io.WriteSeeker)\<close> and \<^verbatim>\<open>.(io.Closer)\<close> succeed.
  \<open>writesLeft\<close> is the number of Write calls that still succeed (\<open>None\<close>: all of them);
  a failing Write, Seek or Close stores nothing.
\<close>

record sink =
  content :: bytes
  offset :: nat
  isSeeker :: bool
  isCloser :: bool
  writesLeft :: "nat option"
  seekFails :: bool
  closeFails :: bool
  isClosed :: bool

definition overwrite :: "bytes \<Rightarrow> nat \<Rightarrow> bytes \<Rightarrow> bytes" where
  "overwrite old off bs =
     take off (old @ replicate (off - length old) 0) @ bs @ drop (off + length bs) old"

definition sink_Write :: "sink \<Rightarrow> bytes \<Rightarrow> error option \<times> sink" where
  "sink_Write out bs =
     (if writesLeft out = Some 0 then (Some errWrite, out)
      else (None, out\<lparr>content := overwrite (content out) (offset out) bs,
                       offset := offset out + length bs,
                       writesLeft := map_option (\<lambda>n. n - 1) (writesLeft out)\<rparr>))"

definition sink_Seek :: "sink \<Rightarrow> nat \<Rightarrow> error option \<times> sink" where
  "sink_Seek out pos =
     (if seekFails out then (Some errSeek, out) else (None, out\<lparr>offset := pos\<rparr>))"

definition sink_Close :: "sink \<Rightarrow> error option \<times> sink" where
  "sink_Close out =
     (if closeFails out then (Some errClose, out) else (None, out\<lparr>isClosed := True\<rparr>))"

text \<open>A sink that is new: empty, positioned at 0, with the given capabilities.\<close>

definition new_sink :: "bool \<Rightarrow> bool \<Rightarrow> sink" where
  "new_sink seeker closer =
     \<lparr>content = [], offset = 0, isSeeker = seeker, isCloser = closer,
      writesLeft = None, seekFails = False, closeFails = False, isClosed = False\<rparr>"

subsection \<open>\<^verbatim>\<open>copy\<close> and \<^verbatim>\<open>binary.LittleEndian\<close>\<close>

text \<open>
  \<^verbatim>\<open>copy(dst[off:], src)\<close> and \<^verbatim>\<open>binary.LittleEndian.PutUintN(b[off:], v)\<close> of the Go
  library. Every call site of the source passes a literal offset inside a buffer it has
  just made (12 or 32 bytes), so the slice expression and the stores are always in range.
\<close>

definition copy_bytes :: "bytes \<Rightarrow> nat \<Rightarrow> bytes \<Rightarrow> bytes" where
  "copy_bytes dst off src =
     take off dst @ take (length dst - off) src @ drop (off + length src) dst"

definition PutUint16 :: "bytes \<Rightarrow> nat \<Rightarrow> 16 word \<Rightarrow> bytes" where
  "PutUint16 b off v = copy_bytes b off [ucast v, ucast (drop_bit 8 v)]"

definition PutUint32 :: "bytes \<Rightarrow> nat \<Rightarrow> 32 word \<Rightarrow> bytes" where
  "PutUint32 b off v =
     copy_bytes b off
       [ucast v, ucast (drop_bit 8 v), ucast (drop_bit 16 v), ucast (drop_bit 24 v)]"

definition PutUint64 :: "bytes \<Rightarrow> nat \<Rightarrow> 64 word \<Rightarrow> bytes" where
  "PutUint64 b off v =
     copy_bytes b off
       [ucast v, ucast (drop_bit 8 v), ucast (drop_bit 16 v), ucast (drop_bit 24 v),
        ucast (drop_bit 32 v), ucast (drop_bit 40 v), ucast (drop_bit 48 v),
        ucast (drop_bit 56 v)]"

definition string_bytes :: "string \<Rightarrow> bytes" where
  "string_bytes s = map of_char s"

subsection \<open>Constants\<close>

definition mimeTypeVP8 :: string where
  "mimeTypeVP8 = ''video/VP8''"

definition defaultVP8ClockRate :: "32 word" where
  "defaultVP8ClockRate = 90000"

definition mimeTypeAV1 :: string where
  "mimeTypeAV1 = ''video/AV1''"

definition ivfFileHeaderSignature :: string where
  "ivfFileHeaderSignature = ''DKIF''"

subsection \<open>The writer, the packet and the collaborators\<close>

text \<open>
  \<open>ioWriter\<close> is \<open>True\<close> while the field holds the sink and \<open>False\<close> when it is
  \<^verbatim>\<open>nil\<close>. \<open>currentFrame\<close> starts as \<^verbatim>\<open>nil\<close>, is reset to \<^verbatim>\<open>nil\<close> and only grows by
  \<^verbatim>\<open>append\<close> (which returns \<^verbatim>\<open>nil\<close> when nothing is appended to \<^verbatim>\<open>nil\<close>), so
  \<^verbatim>\<open>nil\<close> and the empty slice coincide and both are \<open>[]\<close>. \<open>'f\<close> is the state of
  \<^verbatim>\<open>frame.AV1\<close>.
\<close>

record 'f IVFWriter =
  ioWriter :: bool
  seenKeyFrame :: bool
  isVP8 :: bool
  isAV1 :: bool
  currentFrame :: bytes
  av1Frame :: 'f
  frameCount :: "64 word"
  clockRate :: "32 word"
  firstTimestamp :: "32 word"
  lastTimestamp :: "32 word"

text \<open>The fields of \<^verbatim>\<open>rtp.Packet\<close> the writer reads.\<close>

record packet =
  Marker :: bool
  Timestamp :: "32 word"
  Payload :: bytes

text \<open>The fields of \<^verbatim>\<open>codecs.VP8Packet\<close> the writer reads after \<^verbatim>\<open>Unmarshal\<close>.\<close>

record VP8Packet =
  vp8_S :: byte
  vp8_Payload :: bytes

text \<open>
  The code outside this file that the writer calls, taken as parameters:
  \<^item> \<open>vp8_Unmarshal\<close>: \<^verbatim>\<open>codecs.VP8Packet.Unmarshal\<close> of pion/rtp;
  \<^item> \<open>av1_Unmarshal\<close>: \<^verbatim>\<open>codecs.AV1Packet.Unmarshal\<close>, with \<open>'p\<close> the parsed packet;
  \<^item> \<open>av1_ReadFrames\<close>: \<^verbatim>\<open>frame.AV1.ReadFrames\<close>, which returns the OBUs or an error,
    and the new state of the receiver;
  \<^item> \<open>av1_zero\<close>: the zero value of \<^verbatim>\<open>frame.AV1\<close>;
  \<^item> \<open>GetBestMatch\<close>: \<open>GetBestMatch ext c n d\<close> is the pair returned by
    \<^verbatim>\<open>framerate.GetBestMatch(float64(c) * float64(n) / float64(d))\<close>. The float64
    argument is a function of the three integers, so the parameter takes them; it
    returns two uint32 and no error.
\<close>

record ('p, 'f) externals =
  vp8_Unmarshal :: "bytes \<Rightarrow> error + VP8Packet"
  av1_Unmarshal :: "bytes \<Rightarrow> error + 'p"
  av1_ReadFrames :: "'f \<Rightarrow> 'p \<Rightarrow> (error + bytes list) \<times> 'f"
  av1_zero :: 'f
  GetBestMatch :: "32 word \<Rightarrow> 64 word \<Rightarrow> 32 word \<Rightarrow> 32 word \<times> 32 word"

subsection \<open>writeHeader and writeFrame\<close>

definition header_bytes :: "'f IVFWriter \<Rightarrow> bytes" where
  "header_bytes i =
     (let header = replicate 32 0;
          header = copy_bytes header 0 (string_bytes ivfFileHeaderSignature);
          header = PutUint16 header 4 0;
          header = PutUint16 header 6 32;
          header = (if isVP8 i then copy_bytes header 8 (string_bytes ''VP80'')
                    else if isAV1 i then copy_bytes header 8 (string_bytes ''AV01'')
                    else header);
          header = PutUint16 header 12 640;
          header = PutUint16 header 14 480;
          header = PutUint32 header 16 24;
          header = PutUint32 header 20 1;
          header = PutUint32 header 24 900;
          header = PutUint32 header 28 0
      in header)"

definition writeHeader :: "'f IVFWriter \<Rightarrow> sink \<Rightarrow> error option \<times> sink" where
  "writeHeader i out = sink_Write out (header_bytes i)"

definition frameHeader_bytes :: "bytes \<Rightarrow> 64 word \<Rightarrow> bytes" where
  "frameHeader_bytes frame count =
     (let frameHeader = replicate 12 0;
          frameHeader = PutUint32 frameHeader 0 (of_nat (length frame));
          frameHeader = PutUint64 frameHeader 4 count
      in frameHeader)"

definition writeFrame ::
  "bytes \<Rightarrow> 'f IVFWriter \<Rightarrow> sink \<Rightarrow> error option \<times> 'f IVFWriter \<times> sink" where
  "writeFrame frame i out =
     (let frameHeader = frameHeader_bytes frame (frameCount i);
          i = i\<lparr>frameCount := frameCount i + 1\<rparr>
      in case sink_Write out frameHeader of
           (Some err, out) \<Rightarrow> (Some err, i, out)
         | (None, out) \<Rightarrow>
             (case sink_Write out frame of (err, out) \<Rightarrow> (err, i, out)))"

text \<open>The loop \<^verbatim>\<open>for j := range obus\<close> of the AV1 branch.\<close>

fun writeFrames ::
  "bytes list \<Rightarrow> 'f IVFWriter \<Rightarrow> sink \<Rightarrow> error option \<times> 'f IVFWriter \<times> sink" where
  "writeFrames [] i out = (None, i, out)"
| "writeFrames (obu # obus) i out =
     (case writeFrame obu i out of
        (Some err, i, out) \<Rightarrow> (Some err, i, out)
      | (None, i, out) \<Rightarrow> writeFrames obus i out)"

subsection \<open>WriteRTP and FrameDropped\<close>

text \<open>
  The packet is the value behind the pointer the caller passes. \<^verbatim>\<open>vp8Packet.Payload[0]\<close>
  panics when the parsed payload is empty: that is the branch \<open>panicIndexOutOfRange\<close>.
\<close>

definition WriteRTP ::
  "('p, 'f) externals \<Rightarrow> packet \<Rightarrow> 'f IVFWriter \<Rightarrow> sink
     \<Rightarrow> error option \<times> 'f IVFWriter \<times> sink" where
  "WriteRTP ext pkt i out =
     (if \<not> ioWriter i then (Some errFileNotOpened, i, out)
      else if length (Payload pkt) = 0 then (None, i, out)
      else if isVP8 i then
        (case vp8_Unmarshal ext (Payload pkt) of
           Inl err \<Rightarrow> (Some err, i, out)
         | Inr vp8Packet \<Rightarrow>
             (case vp8_Payload vp8Packet of
                [] \<Rightarrow> (Some panicIndexOutOfRange, i, out)
              | b0 # _ \<Rightarrow>
                  (let isKeyFrame = b0 AND 1 in
                   if \<not> seenKeyFrame i \<and> isKeyFrame = 1 then (None, i, out)
                   else if currentFrame i = [] \<and> vp8_S vp8Packet \<noteq> 1 then (None, i, out)
                   else
                     (let i = (if \<not> seenKeyFrame i
                               then i\<lparr>seenKeyFrame := True, firstTimestamp := Timestamp pkt\<rparr>
                               else i);
                          i = i\<lparr>currentFrame := currentFrame i @ vp8_Payload vp8Packet\<rparr>
                      in if \<not> Marker pkt then (None, i, out)
                         else if length (currentFrame i) = 0 then (None, i, out)
                         else
                           (case writeFrame (currentFrame i) i out of
                              (Some err, i, out) \<Rightarrow> (Some err, i, out)
                            | (None, i, out) \<Rightarrow>
                                (None,
                                 i\<lparr>lastTimestamp := Timestamp pkt, currentFrame := []\<rparr>,
                                 out))))))
      else if isAV1 i then
        (case av1_Unmarshal ext (Payload pkt) of
           Inl err \<Rightarrow> (Some err, i, out)
         | Inr av1Packet \<Rightarrow>
             (case av1_ReadFrames ext (av1Frame i) av1Packet of
                (Inl err, fr) \<Rightarrow> (Some err, i\<lparr>av1Frame := fr\<rparr>, out)
              | (Inr obus, fr) \<Rightarrow> writeFrames obus (i\<lparr>av1Frame := fr\<rparr>) out))
      else (None, i, out))"

definition FrameDropped :: "'f IVFWriter \<Rightarrow> 'f IVFWriter" where
  "FrameDropped i = i\<lparr>frameCount := frameCount i + 1\<rparr>"

subsection \<open>Close\<close>

text \<open>
  The deferred \<^verbatim>\<open>i.ioWriter = nil\<close> runs on every return after the first check, so every
  branch below returns the writer with \<open>ioWriter := False\<close>.
\<close>

definition close_buff :: "32 word \<Rightarrow> 32 word \<Rightarrow> 64 word \<Rightarrow> bytes" where
  "close_buff num den count =
     (let buff = replicate 12 0;
          buff = PutUint32 buff 0 num;
          buff = PutUint32 buff 4 den;
          buff = PutUint32 buff 8 (ucast count)
      in buff)"

definition Close ::
  "('p, 'f) externals \<Rightarrow> 'f IVFWriter \<Rightarrow> sink \<Rightarrow> error option \<times> 'f IVFWriter \<times> sink" where
  "Close ext i out =
     (if \<not> ioWriter i then (None, i, out)
      else
        (let i' = i\<lparr>ioWriter := False\<rparr>;
             patched =
               (if isSeeker out then
                  (case sink_Seek out 16 of
                     (Some err, ws) \<Rightarrow> (Some err, ws)
                   | (None, ws) \<Rightarrow>
                       (case GetBestMatch ext (clockRate i) (frameCount i)
                               (lastTimestamp i - firstTimestamp i) of
                          (num, den) \<Rightarrow> sink_Write ws (close_buff num den (frameCount i))))
                else (None, out))
         in case patched of
              (Some err, out) \<Rightarrow> (Some err, i', out)
            | (None, out) \<Rightarrow>
                (if isCloser out then (case sink_Close out of (err, out) \<Rightarrow> (err, i', out))
                 else (None, i', out))))"

subsection \<open>Options and NewWith\<close>

text \<open>An \<^verbatim>\<open>Option\<close> is one of the two closures the package builds.\<close>

datatype ivf_option = WithCodec string | WithClockRate "32 word"

fun apply_option :: "ivf_option \<Rightarrow> 'f IVFWriter \<Rightarrow> error + 'f IVFWriter" where
  "apply_option (WithCodec mimeType) i =
     (if isVP8 i \<or> isAV1 i then Inl errCodecAlreadySet
      else if mimeType = mimeTypeVP8 then
        Inr (let i = i\<lparr>isVP8 := True\<rparr>
             in if clockRate i = 0 then i\<lparr>clockRate := defaultVP8ClockRate\<rparr> else i)
      else if mimeType = mimeTypeAV1 then Inr (i\<lparr>isAV1 := True\<rparr>)
      else Inl errNoSuchCodec)"
| "apply_option (WithClockRate rate) i = Inr (i\<lparr>clockRate := rate\<rparr>)"

text \<open>The loop \<^verbatim>\<open>for _, o := range opts\<close>: the first failing option ends construction.\<close>

fun apply_options :: "ivf_option list \<Rightarrow> 'f IVFWriter \<Rightarrow> error + 'f IVFWriter" where
  "apply_options [] i = Inr i"
| "apply_options (o1 # opts) i =
     (case apply_option o1 i of Inl err \<Rightarrow> Inl err | Inr i \<Rightarrow> apply_options opts i)"

text \<open>The writer NewWith allocates: the sink, and the zero value of every other field.\<close>

definition zero_writer :: "('p, 'f) externals \<Rightarrow> 'f IVFWriter" where
  "zero_writer ext =
     \<lparr>ioWriter = True, seenKeyFrame = False, isVP8 = False, isAV1 = False,
      currentFrame = [], av1Frame = av1_zero ext, frameCount = 0, clockRate = 0,
      firstTimestamp = 0, lastTimestamp = 0\<rparr>"

definition NewWith ::
  "('p, 'f) externals \<Rightarrow> sink option \<Rightarrow> ivf_option list \<Rightarrow> error + 'f IVFWriter \<times> sink" where
  "NewWith ext out opts =
     (case out of
        None \<Rightarrow> Inl errFileNotOpened
      | Some out \<Rightarrow>
          (case apply_options opts (zero_writer ext) of
             Inl err \<Rightarrow> Inl err
           | Inr writer \<Rightarrow>
               (let writer =
                      (if \<not> isAV1 writer \<and> \<not> isVP8 writer then
                         (let writer = writer\<lparr>isVP8 := True\<rparr>
                          in if clockRate writer = 0
                             then writer\<lparr>clockRate := defaultVP8ClockRate\<rparr>
                             else writer)
                       else writer)
                in case writeHeader writer out of
                     (Some err, out) \<Rightarrow> Inl err
                   | (None, out) \<Rightarrow> Inr (writer, out))))"

subsection \<open>Callers\<close>

text \<open>
  A caller that feeds packets one after the other and goes on after an error, as the
  errors of WriteRTP are returned per packet. The results are collected in call order.
\<close>

fun WriteRTPs ::
  "('p, 'f) externals \<Rightarrow> packet list \<Rightarrow> 'f IVFWriter \<Rightarrow> sink
     \<Rightarrow> error option list \<times> 'f IVFWriter \<times> sink" where
  "WriteRTPs ext [] i out = ([], i, out)"
| "WriteRTPs ext (pkt # pkts) i out =
     (case WriteRTP ext pkt i out of
        (err, i, out) \<Rightarrow>
          (case WriteRTPs ext pkts i out of (errs, i, out) \<Rightarrow> (err # errs, i, out)))"

text \<open>A caller that mixes WriteRTP and FrameDropped.\<close>

datatype call = CallWriteRTP packet | CallFrameDropped

fun run_call ::
  "('p, 'f) externals \<Rightarrow> call \<Rightarrow> 'f IVFWriter \<Rightarrow> sink \<Rightarrow> 'f IVFWriter \<times> sink" where
  "run_call ext (CallWriteRTP pkt) i out = snd (WriteRTP ext pkt i out)"
| "run_call ext CallFrameDropped i out = (FrameDropped i, out)"

fun run_calls ::
  "('p, 'f) externals \<Rightarrow> call list \<Rightarrow> 'f IVFWriter \<Rightarrow> sink \<Rightarrow> 'f IVFWriter \<times> sink" where
  "run_calls ext [] i out = (i, out)"
| "run_calls ext (c # cs) i out =
     (case run_call ext c i out of (i, out) \<Rightarrow> run_calls ext cs i out)"

text \<open>
  The two operations that consume a frame slot: writeFrame with the bytes of a frame,
  and FrameDropped. An error of writeFrame does not stop the caller.
\<close>

datatype slot = SlotWriteFrame bytes | SlotFrameDropped

fun run_slot :: "slot \<Rightarrow> 'f IVFWriter \<Rightarrow> sink \<Rightarrow> 'f IVFWriter \<times> sink" where
  "run_slot (SlotWriteFrame frame) i out = snd (writeFrame frame i out)"
| "run_slot SlotFrameDropped i out = (FrameDropped i, out)"

fun run_slots :: "slot list \<Rightarrow> 'f IVFWriter \<Rightarrow> sink \<Rightarrow> 'f IVFWriter \<times> sink" where
  "run_slots [] i out = (i, out)"
| "run_slots (s # ss) i out = (case run_slot s i out of (i, out) \<Rightarrow> run_slots ss i out)"

subsection \<open>What WriteRTP reads from a VP8 packet\<close>

text \<open>
  The parsed payload of a packet (\<^verbatim>\<open>vp8Packet.Payload\<close>), empty when the parser fails, and
  the keyframe indicator WriteRTP computes from it, \<^verbatim>\<open>vp8Packet.Payload[0] & 0x01\<close>:
  \<open>None\<close> when WriteRTP does not get that far (an empty RTP payload, a parse error, an
  empty parsed payload).
\<close>

definition parsed_payload :: "('p, 'f) externals \<Rightarrow> packet \<Rightarrow> bytes" where
  "parsed_payload ext pkt =
     (case vp8_Unmarshal ext (Payload pkt) of Inl err \<Rightarrow> [] | Inr v \<Rightarrow> vp8_Payload v)"

definition parsed_S :: "('p, 'f) externals \<Rightarrow> packet \<Rightarrow> byte option" where
  "parsed_S ext pkt =
     (case vp8_Unmarshal ext (Payload pkt) of Inl err \<Rightarrow> None | Inr v \<Rightarrow> Some (vp8_S v))"

definition keyframe_indicator :: "('p, 'f) externals \<Rightarrow> packet \<Rightarrow> byte option" where
  "keyframe_indicator ext pkt =
     (if Payload pkt = [] then None
      else case parsed_payload ext pkt of [] \<Rightarrow> None | b0 # rest \<Rightarrow> Some (b0 AND 1))"

subsection \<open>The layout of the container, in the words of the specification\<close>

text \<open>
  \<open>little_endian n v\<close> is the number \<open>v\<close> in \<open>n\<close> bytes, least significant byte first,
  and \<open>le_value\<close> reads such a field back.
\<close>

fun little_endian :: "nat \<Rightarrow> nat \<Rightarrow> bytes" where
  "little_endian 0 v = []"
| "little_endian (Suc n) v = of_nat (v mod 256) # little_endian n (v div 256)"

fun le_value :: "bytes \<Rightarrow> nat" where
  "le_value [] = 0"
| "le_value (b # bs) = unat b + 256 * le_value bs"

subsection \<open>One instance of the collaborators\<close>

text \<open>
  The theorems below hold for every parser, extractor and rate estimator. To evaluate
  them at concrete inputs, this is one instance: a VP8 parser for the one-byte payload
  descriptor (S is bit 4 of the first byte, the payload is what follows it), an AV1
  extractor that returns every packet as one OBU, and a rate estimator that always
  answers 30/1.
\<close>

definition demo_ext :: "(bytes, unit) externals" where
  "demo_ext =
     \<lparr>vp8_Unmarshal =
        (\<lambda>raw. case raw of
                 [] \<Rightarrow> Inl errUnmarshal
               | d # rest \<Rightarrow> Inr \<lparr>vp8_S = drop_bit 4 (d AND 16), vp8_Payload = rest\<rparr>),
      av1_Unmarshal = (\<lambda>raw. Inr raw),
      av1_ReadFrames = (\<lambda>st p. (Inr [p], st)),
      av1_zero = (),
      GetBestMatch = (\<lambda>c n d. (30, 1))\<rparr>"

subsection \<open>Sinks that only grow\<close>

text \<open>
  A sink positioned at its end only grows: whatever a Write, writeFrame, WriteRTP or a
  sequence of calls does to it, the new sink is the old one with bytes appended (none
  when the Write fails) and fewer Writes left.
\<close>

abbreviation grown :: "sink \<Rightarrow> sink \<Rightarrow> bool" where
  "grown out out' \<equiv>
     \<exists>bs wl. out' = out\<lparr>content := content out @ bs,
                          offset := length (content out) + length bs, writesLeft := wl\<rparr>"

section \<open>Lemmas\<close>

lemma overwrite_at_end: "overwrite old (length old) bs = old @ bs"
  by (simp add: overwrite_def)

lemma ucast_byte: "(ucast (v :: 'a::len word) :: byte) = of_nat (unat v mod 256)"
  by (simp add: word_eq_iff_unsigned[where ?'a = nat]  unsigned_ucast_eq unat_of_nat take_bit_eq_mod min_def)

lemma little_endian_2: "little_endian 2 v = [of_nat (v mod 256), of_nat (v div 256 mod 256)]"
  by (simp add: numeral_2_eq_2)

lemma little_endian_4:
  "little_endian 4 v =
     [of_nat (v mod 256), of_nat (v div 2 ^ 8 mod 256), of_nat (v div 2 ^ 16 mod 256),
      of_nat (v div 2 ^ 24 mod 256)]"
proof -
  have "(4::nat) = Suc (Suc (Suc (Suc 0)))" by simp
  then show ?thesis by (simp only: little_endian.simps) (simp add: div_mult2_eq[symmetric])
qed

lemma little_endian_8:
  "little_endian 8 v =
     [of_nat (v mod 256), of_nat (v div 2 ^ 8 mod 256), of_nat (v div 2 ^ 16 mod 256),
      of_nat (v div 2 ^ 24 mod 256), of_nat (v div 2 ^ 32 mod 256), of_nat (v div 2 ^ 40 mod 256),
      of_nat (v div 2 ^ 48 mod 256), of_nat (v div 2 ^ 56 mod 256)]"
proof -
  have "(8::nat) = Suc (Suc (Suc (Suc (Suc (Suc (Suc (Suc 0)))))))" by simp
  then show ?thesis by (simp only: little_endian.simps) (simp add: div_mult2_eq[symmetric])
qed

lemma bytes16: "[ucast v, ucast (drop_bit 8 v)] = little_endian 2 (unat (v :: 16 word))"
  by (simp only: ucast_byte unat_drop_bit_eq) (simp add: drop_bit_eq_div little_endian_2)

lemma bytes32:
  "[ucast v, ucast (drop_bit 8 v), ucast (drop_bit 16 v), ucast (drop_bit 24 v)]
   = little_endian 4 (unat (v :: 32 word))"
  by (simp only: ucast_byte unat_drop_bit_eq) (simp only: drop_bit_eq_div little_endian_4)

lemma bytes64:
  "[ucast v, ucast (drop_bit 8 v), ucast (drop_bit 16 v), ucast (drop_bit 24 v),
    ucast (drop_bit 32 v), ucast (drop_bit 40 v), ucast (drop_bit 48 v), ucast (drop_bit 56 v)]
   = little_endian 8 (unat (v :: 64 word))"
  by (simp only: ucast_byte unat_drop_bit_eq) (simp only: drop_bit_eq_div little_endian_8)

lemma length_little_endian [simp]: "length (little_endian n v) = n"
  by (induction n arbitrary: v) simp_all

lemma le_value_little_endian: "le_value (little_endian n v) = v mod 256 ^ n"
proof (induction n arbitrary: v)
  case 0
  then show ?case by simp
next
  case (Suc n)
  have "unat (of_nat (v mod 256) :: byte) = v mod 256"
    by (simp add: unat_of_nat take_bit_eq_mod)
  then show ?case
    by (simp add: Suc mod_mult2_eq)
qed

lemma frameHeader_layout:
  "frameHeader_bytes frame count =
     little_endian 4 (length frame mod 2 ^ 32) @ little_endian 8 (unat count)"
proof -
  have u: "unat (of_nat (length frame) :: 32 word) = length frame mod 2 ^ 32"
    by (simp add: unat_of_nat take_bit_eq_mod)
  show ?thesis
    unfolding frameHeader_bytes_def PutUint32_def PutUint64_def Let_def bytes32 bytes64 u
    by (simp add: copy_bytes_def)
qed

lemma length_frameHeader [simp]: "length (frameHeader_bytes frame count) = 12"
  by (simp add: frameHeader_layout)

lemma close_buff_layout:
  "close_buff num den count =
     little_endian 4 (unat num) @ little_endian 4 (unat den) @
     little_endian 4 (unat count mod 2 ^ 32)"
proof -
  have u: "unat (ucast count :: 32 word) = unat count mod 2 ^ 32"
    by (simp add: unsigned_ucast_eq take_bit_eq_mod unat_of_nat)
  show ?thesis
    unfolding close_buff_def PutUint32_def Let_def bytes32 u
    by (simp add: copy_bytes_def)
qed

lemma header_layout:
  "header_bytes i =
     string_bytes ''DKIF'' @ little_endian 2 0 @ little_endian 2 32 @
     (if isVP8 i then string_bytes ''VP80''
      else if isAV1 i then string_bytes ''AV01'' else replicate 4 0) @
     little_endian 2 640 @ little_endian 2 480 @ little_endian 4 24 @
     little_endian 4 1 @ little_endian 4 900 @ little_endian 4 0"
proof -
  have l: "length (string_bytes ''DKIF'') = 4" "length (string_bytes ''VP80'') = 4"
    "length (string_bytes ''AV01'') = 4"
    by (simp_all add: string_bytes_def)
  have u: "unat (0 :: 16 word) = 0" "unat (32 :: 16 word) = 32" "unat (640 :: 16 word) = 640"
    "unat (480 :: 16 word) = 480" "unat (24 :: 32 word) = 24" "unat (1 :: 32 word) = 1"
    "unat (900 :: 32 word) = 900" "unat (0 :: 32 word) = 0"
    by simp_all
  show ?thesis
    unfolding header_bytes_def PutUint16_def PutUint32_def Let_def bytes16 bytes32 u
      ivfFileHeaderSignature_def
    by (cases "isVP8 i"; cases "isAV1 i") (simp_all add: copy_bytes_def l)
qed

lemma length_header [simp]: "length (header_bytes i) = 32"
  by (simp add: header_layout string_bytes_def)

lemma apply_option_keeps:
  "apply_option ob i = Inr i' \<Longrightarrow>
   ioWriter i' = ioWriter i \<and> seenKeyFrame i' = seenKeyFrame i \<and>
   currentFrame i' = currentFrame i \<and> frameCount i' = frameCount i \<and>
   firstTimestamp i' = firstTimestamp i \<and> lastTimestamp i' = lastTimestamp i \<and>
   av1Frame i' = av1Frame i"
  by (cases ob) (auto simp: Let_def split: if_splits)

lemma apply_option_one_codec:
  "apply_option ob i = Inr i' \<Longrightarrow> \<not> (isVP8 i \<and> isAV1 i) \<Longrightarrow> \<not> (isVP8 i' \<and> isAV1 i')"
  by (cases ob) (auto simp: Let_def split: if_splits)

lemma apply_options_keeps:
  "apply_options opts i = Inr i' \<Longrightarrow>
   ioWriter i' = ioWriter i \<and> seenKeyFrame i' = seenKeyFrame i \<and>
   currentFrame i' = currentFrame i \<and> frameCount i' = frameCount i \<and>
   firstTimestamp i' = firstTimestamp i \<and> lastTimestamp i' = lastTimestamp i \<and>
   av1Frame i' = av1Frame i"
proof (induction opts arbitrary: i)
  case Nil
  then show ?case by simp
next
  case (Cons ob opts)
  from Cons.prems obtain j where j: "apply_option ob i = Inr j" "apply_options opts j = Inr i'"
    by (auto split: sum.splits)
  from apply_option_keeps [OF j(1)] Cons.IH [OF j(2)] show ?case by simp
qed

lemma apply_options_one_codec:
  "apply_options opts i = Inr i' \<Longrightarrow> \<not> (isVP8 i \<and> isAV1 i) \<Longrightarrow> \<not> (isVP8 i' \<and> isAV1 i')"
proof (induction opts arbitrary: i)
  case Nil
  then show ?case by simp
next
  case (Cons ob opts)
  from Cons.prems(1) obtain j where j: "apply_option ob i = Inr j" "apply_options opts j = Inr i'"
    by (auto split: sum.splits)
  from apply_option_one_codec [OF j(1) Cons.prems(2)] Cons.IH [OF j(2)] show ?case by simp
qed

text \<open>What NewWith returns when it succeeds.\<close>

lemma NewWith_Some:
  assumes "NewWith ext (Some out) opts = Inr (i, out')"
  shows "ioWriter i \<and> \<not> seenKeyFrame i \<and> currentFrame i = [] \<and> frameCount i = 0 \<and>
         firstTimestamp i = 0 \<and> lastTimestamp i = 0 \<and> isVP8 i \<noteq> isAV1 i \<and>
         sink_Write out (header_bytes i) = (None, out')"
proof -
  from assms obtain w where w: "apply_options opts (zero_writer ext) = Inr w"
    by (auto simp: NewWith_def split: sum.splits)
  have k: "ioWriter w \<and> \<not> seenKeyFrame w \<and> currentFrame w = [] \<and> frameCount w = 0 \<and>
           firstTimestamp w = 0 \<and> lastTimestamp w = 0"
    using apply_options_keeps [OF w] by (simp add: zero_writer_def)
  have c: "\<not> (isVP8 w \<and> isAV1 w)"
    using apply_options_one_codec [OF w] by (simp add: zero_writer_def)
  from assms w k c show ?thesis
    by (auto simp: NewWith_def writeHeader_def Let_def split: if_splits option.splits prod.splits)
qed

lemma NewWith_succeeds:
  assumes w: "apply_options opts (zero_writer ext) = Inr w"
    and ok: "writesLeft out \<noteq> Some 0"
  shows "\<exists>i out'. NewWith ext (Some out) opts = Inr (i, out')"
  using w ok
  by (simp add: NewWith_def writeHeader_def sink_Write_def Let_def)

lemma apply_options_clock_rates:
  "apply_options (map WithClockRate rates) i =
     Inr (if rates = [] then i else i\<lparr>clockRate := last rates\<rparr>)"
proof (induction rates arbitrary: i)
  case Nil
  then show ?case by simp
next
  case (Cons r rates)
  then show ?case by (cases rates) simp_all
qed

lemma Close_releases: "Close ext i out = (err, i1, out1) \<Longrightarrow> \<not> ioWriter i1"
  by (auto simp: Close_def Let_def split: if_splits prod.splits option.splits)

lemma grown_refl: "offset out = length (content out) \<Longrightarrow> grown out out"
  by (intro exI [of _ "[]"] exI [of _ "writesLeft out"]) simp

lemma grown_trans: "grown out out1 \<Longrightarrow> grown out1 out2 \<Longrightarrow> grown out out2"
proof -
  assume "grown out out1" "grown out1 out2"
  then obtain bs wl bs' wl' where
    a: "out1 = out\<lparr>content := content out @ bs,
                    offset := length (content out) + length bs, writesLeft := wl\<rparr>"
    and b: "out2 = out1\<lparr>content := content out1 @ bs',
                    offset := length (content out1) + length bs', writesLeft := wl'\<rparr>"
    by blast
  show ?thesis
    by (intro exI [of _ "bs @ bs'"] exI [of _ wl']) (simp add: a b)
qed

lemma grown_at_end: "grown out out' \<Longrightarrow> offset out' = length (content out')"
  by auto

lemma sink_Write_grown:
  "offset out = length (content out) \<Longrightarrow> sink_Write out b = (e, out') \<Longrightarrow> grown out out'"
proof (cases "writesLeft out = Some 0")
  case True
  assume "offset out = length (content out)" "sink_Write out b = (e, out')"
  with True show ?thesis
    by (intro exI [of _ "[]"] exI [of _ "writesLeft out"]) (auto simp: sink_Write_def)
next
  case False
  assume "offset out = length (content out)" "sink_Write out b = (e, out')"
  with False show ?thesis
    by (intro exI [of _ b] exI [of _ "map_option (\<lambda>n. n - 1) (writesLeft out)"])
      (auto simp: sink_Write_def overwrite_at_end)
qed

lemma writeFrame_writer:
  "writeFrame frame i out = (e, i', out') \<Longrightarrow> i' = i\<lparr>frameCount := frameCount i + 1\<rparr>"
  by (auto simp: writeFrame_def Let_def split: prod.splits option.splits)

lemma writeFrame_grown:
  assumes "offset out = length (content out)" "writeFrame frame i out = (e, i', out')"
  shows "grown out out'"
proof (cases "sink_Write out (frameHeader_bytes frame (frameCount i))")
  case (Pair e1 out1)
  note g1 = sink_Write_grown [OF assms(1) Pair]
  show ?thesis
  proof (cases e1)
    case None
    obtain e2 out2 where w2: "sink_Write out1 frame = (e2, out2)"
      by (cases "sink_Write out1 frame")
    from assms(2) Pair None w2 have "out' = out2"
      by (simp add: writeFrame_def Let_def)
    with grown_trans [OF g1 sink_Write_grown [OF grown_at_end [OF g1] w2]] show ?thesis
      by simp
  next
    case (Some err)
    with assms(2) Pair have "out' = out1"
      by (simp add: writeFrame_def Let_def)
    with g1 show ?thesis by simp
  qed
qed

lemma writeFrames_writer:
  "writeFrames obus i out = (e, i', out') \<Longrightarrow>
   ioWriter i' = ioWriter i \<and> isVP8 i' = isVP8 i \<and> isAV1 i' = isAV1 i \<and>
   firstTimestamp i' = firstTimestamp i \<and> lastTimestamp i' = lastTimestamp i \<and>
   seenKeyFrame i' = seenKeyFrame i \<and> currentFrame i' = currentFrame i"
proof (induction obus arbitrary: i out)
  case Nil
  then show ?case by simp
next
  case (Cons obu obus)
  obtain e1 i1 out1 where w: "writeFrame obu i out = (e1, i1, out1)"
    by (cases "writeFrame obu i out") auto
  note i1 = writeFrame_writer [OF w]
  show ?case
  proof (cases e1)
    case None
    with Cons.prems w have "writeFrames obus i1 out1 = (e, i', out')" by simp
    from Cons.IH [OF this] i1 show ?thesis by simp
  next
    case (Some err)
    with Cons.prems w have "i' = i1" by simp
    with i1 show ?thesis by simp
  qed
qed

lemma writeFrames_grown:
  "offset out = length (content out) \<Longrightarrow> writeFrames obus i out = (e, i', out') \<Longrightarrow>
   grown out out'"
proof (induction obus arbitrary: i out)
  case Nil
  then show ?case using grown_refl by simp
next
  case (Cons obu obus)
  obtain e1 i1 out1 where w: "writeFrame obu i out = (e1, i1, out1)"
    by (cases "writeFrame obu i out") auto
  note g1 = writeFrame_grown [OF Cons.prems(1) w]
  show ?case
  proof (cases e1)
    case None
    with Cons.prems w have "writeFrames obus i1 out1 = (e, i', out')" by simp
    from grown_trans [OF g1 Cons.IH [OF grown_at_end [OF g1] this]] show ?thesis .
  next
    case (Some err)
    with Cons.prems w have "out' = out1" by simp
    with g1 show ?thesis by simp
  qed
qed

lemma WriteRTP_keeps:
  assumes "WriteRTP ext pkt i out = (e, i', out')"
  shows "ioWriter i' = ioWriter i \<and> isVP8 i' = isVP8 i \<and> isAV1 i' = isAV1 i"
proof -
  have f: "\<And>fr j e i' out'. writeFrame fr j out = (e, i', out') \<Longrightarrow>
      ioWriter i' = ioWriter j \<and> isVP8 i' = isVP8 j \<and> isAV1 i' = isAV1 j"
    by (drule writeFrame_writer) simp
  have fs: "\<And>obus j e i' out'. writeFrames obus j out = (e, i', out') \<Longrightarrow>
      ioWriter i' = ioWriter j \<and> isVP8 i' = isVP8 j \<and> isAV1 i' = isAV1 j"
    by (drule writeFrames_writer) simp
  from assms show ?thesis
    by (auto simp: WriteRTP_def Let_def
        split: if_splits sum.splits list.splits prod.splits option.splits
        dest!: f fs)
qed

lemma WriteRTP_grown:
  assumes "offset out = length (content out)" "WriteRTP ext pkt i out = (e, i', out')"
  shows "grown out out'"
proof -
  note r = grown_refl [OF assms(1)]
  have f: "\<And>fr j e i' out'. writeFrame fr j out = (e, i', out') \<Longrightarrow> grown out out'"
    using writeFrame_grown [OF assms(1)] by blast
  have fs: "\<And>obus j e i' out'. writeFrames obus j out = (e, i', out') \<Longrightarrow> grown out out'"
    using writeFrames_grown [OF assms(1)] by blast
  from assms(2) r show ?thesis
    apply (simp add: WriteRTP_def Let_def
        split: if_splits sum.splits list.splits prod.splits option.splits)
    apply (auto dest: f fs)
    done
qed

lemma run_call_keeps:
  "run_call ext c i out = (i', out') \<Longrightarrow>
   ioWriter i' = ioWriter i \<and> isVP8 i' = isVP8 i \<and> isAV1 i' = isAV1 i"
proof (cases c)
  case (CallWriteRTP pkt)
  assume "run_call ext c i out = (i', out')"
  with CallWriteRTP have "WriteRTP ext pkt i out = (fst (WriteRTP ext pkt i out), i', out')"
    by (cases "WriteRTP ext pkt i out") simp
  from WriteRTP_keeps [OF this] show ?thesis .
next
  case CallFrameDropped
  assume "run_call ext c i out = (i', out')"
  with CallFrameDropped show ?thesis by (auto simp: FrameDropped_def)
qed

lemma run_call_grown:
  "offset out = length (content out) \<Longrightarrow> run_call ext c i out = (i', out') \<Longrightarrow>
   grown out out'"
proof (cases c)
  case (CallWriteRTP pkt)
  assume a: "offset out = length (content out)" "run_call ext c i out = (i', out')"
  with CallWriteRTP have "WriteRTP ext pkt i out = (fst (WriteRTP ext pkt i out), i', out')"
    by (cases "WriteRTP ext pkt i out") simp
  from WriteRTP_grown [OF a(1) this] show ?thesis .
next
  case CallFrameDropped
  assume a: "offset out = length (content out)" "run_call ext c i out = (i', out')"
  with CallFrameDropped grown_refl [OF a(1)] show ?thesis by simp
qed

lemma run_calls_keeps:
  "run_calls ext cs i out = (i', out') \<Longrightarrow>
   ioWriter i' = ioWriter i \<and> isVP8 i' = isVP8 i \<and> isAV1 i' = isAV1 i"
proof (induction cs arbitrary: i out)
  case Nil
  then show ?case by simp
next
  case (Cons c cs)
  obtain i1 out1 where s: "run_call ext c i out = (i1, out1)"
    by (cases "run_call ext c i out")
  with Cons.prems have "run_calls ext cs i1 out1 = (i', out')" by simp
  from Cons.IH [OF this] run_call_keeps [OF s] show ?case by simp
qed

lemma run_calls_grown:
  "offset out = length (content out) \<Longrightarrow> run_calls ext cs i out = (i', out') \<Longrightarrow>
   grown out out'"
proof (induction cs arbitrary: i out)
  case Nil
  then show ?case using grown_refl by simp
next
  case (Cons c cs)
  obtain i1 out1 where s: "run_call ext c i out = (i1, out1)"
    by (cases "run_call ext c i out")
  note g1 = run_call_grown [OF Cons.prems(1) s]
  from Cons.prems s have "run_calls ext cs i1 out1 = (i', out')" by simp
  from grown_trans [OF g1 Cons.IH [OF grown_at_end [OF g1] this]] show ?case .
qed

lemma Close_without_seek:
  "ioWriter i \<Longrightarrow> \<not> isSeeker out \<Longrightarrow>
   Close ext i out =
     (if isCloser out then (fst (sink_Close out), i\<lparr>ioWriter := False\<rparr>, snd (sink_Close out))
      else (None, i\<lparr>ioWriter := False\<rparr>, out))"
  by (simp add: Close_def Let_def split: prod.splits)

lemma header_rate_fields:
  "take 12 (drop 16 (header_bytes i)) =
     little_endian 4 24 @ little_endian 4 1 @ little_endian 4 900"
  by (simp add: header_layout string_bytes_def)

lemma demo_new_VP8:
  "NewWith demo_ext (Some (new_sink seeker closer)) [] =
     Inr (\<lparr>ioWriter = True, seenKeyFrame = False, isVP8 = True, isAV1 = False,
            currentFrame = [], av1Frame = (), frameCount = 0, clockRate = 90000,
            firstTimestamp = 0, lastTimestamp = 0\<rparr>,
          \<lparr>content = [68, 75, 73, 70, 0, 0, 32, 0, 86, 80, 56, 48, 128, 2, 224, 1,
                      24, 0, 0, 0, 1, 0, 0, 0, 132, 3, 0, 0, 0, 0, 0, 0],
            offset = 32, isSeeker = seeker, isCloser = closer, writesLeft = None,
            seekFails = False, closeFails = False, isClosed = False\<rparr>)"
  by (simp add: NewWith_def zero_writer_def demo_ext_def new_sink_def writeHeader_def
      sink_Write_def overwrite_def header_layout string_bytes_def little_endian_2
      little_endian_4 defaultVP8ClockRate_def)

lemma demo_keyframe_packet:
  "off = length c \<Longrightarrow>
   WriteRTP demo_ext \<lparr>Marker = True, Timestamp = 3000, Payload = [16, 16, 170, 187]\<rparr>
     \<lparr>ioWriter = True, seenKeyFrame = False, isVP8 = True, isAV1 = False,
      currentFrame = [], av1Frame = (), frameCount = 1, clockRate = 90000,
      firstTimestamp = 0, lastTimestamp = 0\<rparr>
     \<lparr>content = c, offset = off, isSeeker = seeker, isCloser = closer,
      writesLeft = None, seekFails = False, closeFails = False, isClosed = False\<rparr> =
   (None,
    \<lparr>ioWriter = True, seenKeyFrame = True, isVP8 = True, isAV1 = False,
      currentFrame = [], av1Frame = (), frameCount = 2, clockRate = 90000,
      firstTimestamp = 3000, lastTimestamp = 3000\<rparr>,
    \<lparr>content = c @ [3, 0, 0, 0, 1, 0, 0, 0, 0, 0, 0, 0, 16, 170, 187],
      offset = off + 15, isSeeker = seeker, isCloser = closer,
      writesLeft = None, seekFails = False, closeFails = False, isClosed = False\<rparr>)"
  by (simp add: WriteRTP_def demo_ext_def writeFrame_def sink_Write_def overwrite_def
      frameHeader_layout little_endian_4 little_endian_8)

lemma demo_Close_seekable:
  "Close demo_ext
     \<lparr>ioWriter = True, seenKeyFrame = False, isVP8 = True, isAV1 = False,
      currentFrame = [], av1Frame = (), frameCount = 0, clockRate = 90000,
      firstTimestamp = 0, lastTimestamp = 0\<rparr>
     \<lparr>content = [68, 75, 73, 70, 0, 0, 32, 0, 86, 80, 56, 48, 128, 2, 224, 1,
                 24, 0, 0, 0, 1, 0, 0, 0, 132, 3, 0, 0, 0, 0, 0, 0],
      offset = 32, isSeeker = True, isCloser = True, writesLeft = None,
      seekFails = False, closeFails = False, isClosed = False\<rparr> =
   (None,
    \<lparr>ioWriter = False, seenKeyFrame = False, isVP8 = True, isAV1 = False,
      currentFrame = [], av1Frame = (), frameCount = 0, clockRate = 90000,
      firstTimestamp = 0, lastTimestamp = 0\<rparr>,
    \<lparr>content = [68, 75, 73, 70, 0, 0, 32, 0, 86, 80, 56, 48, 128, 2, 224, 1,
                 30, 0, 0, 0, 1, 0, 0, 0, 0, 0, 0, 0, 0, 0, 0, 0],
      offset = 28, isSeeker = True, isCloser = True, writesLeft = None,
      seekFails = False, closeFails = False, isClosed = True\<rparr>)"
  by (simp add: Close_def demo_ext_def sink_Seek_def sink_Write_def sink_Close_def
      overwrite_def close_buff_layout little_endian_4)

lemma writeFrame_ok:
  "writesLeft out = None \<Longrightarrow> offset out = length (content out) \<Longrightarrow>
   writeFrame frame i out =
     (None, i\<lparr>frameCount := frameCount i + 1\<rparr>,
      out\<lparr>content := content out @ frameHeader_bytes frame (frameCount i) @ frame,
          offset := length (content out) + 12 + length frame\<rparr>)"
proof -
  assume a: "writesLeft out = None" "offset out = length (content out)"
  have o: "overwrite (content out @ frameHeader_bytes frame (frameCount i))
             (length (content out) + 12) frame =
           content out @ frameHeader_bytes frame (frameCount i) @ frame"
    using overwrite_at_end [of "content out @ frameHeader_bytes frame (frameCount i)" frame]
    by simp
  from a show ?thesis
    by (simp add: writeFrame_def sink_Write_def overwrite_at_end Let_def o)
qed

lemma run_slot_count:
  "run_slot s i out = (i', out') \<Longrightarrow> i' = i\<lparr>frameCount := frameCount i + 1\<rparr>"
proof (cases s)
  case (SlotWriteFrame frame)
  assume "run_slot s i out = (i', out')"
  with SlotWriteFrame
  have "writeFrame frame i out = (fst (writeFrame frame i out), i', out')"
    by (cases "writeFrame frame i out") simp
  from writeFrame_writer [OF this] show ?thesis .
next
  case SlotFrameDropped
  assume "run_slot s i out = (i', out')"
  with SlotFrameDropped show ?thesis by (auto simp: FrameDropped_def)
qed

lemma run_slots_count:
  "run_slots ss i out = (i', out') \<Longrightarrow>
   i' = i\<lparr>frameCount := frameCount i + of_nat (length ss)\<rparr>"
proof (induction ss arbitrary: i out)
  case Nil
  then show ?case by simp
next
  case (Cons s ss)
  obtain i1 out1 where s: "run_slot s i out = (i1, out1)"
    by (cases "run_slot s i out")
  with Cons.prems have "run_slots ss i1 out1 = (i', out')" by simp
  from Cons.IH [OF this] run_slot_count [OF s] show ?case
    by (simp add: add.assoc add.commute)
qed

lemma and_one_cases: "(b :: byte) AND 1 = 0 \<or> b AND 1 = 1"
  by (simp add: and_one_eq mod_2_eq_odd)

lemma WriteRTP_before_keyframe:
  assumes "isVP8 i" "\<not> seenKeyFrame i" "keyframe_indicator ext pkt \<noteq> Some 0"
  shows "snd (WriteRTP ext pkt i out) = (i, out)"
proof (cases "ioWriter i \<and> Payload pkt \<noteq> []")
  case False
  then show ?thesis by (auto simp: WriteRTP_def)
next
  case True
  show ?thesis
  proof (cases "vp8_Unmarshal ext (Payload pkt)")
    case (Inl err)
    with True assms(1) show ?thesis by (simp add: WriteRTP_def)
  next
    case (Inr v)
    show ?thesis
    proof (cases "vp8_Payload v")
      case Nil
      with True assms(1) Inr show ?thesis by (simp add: WriteRTP_def)
    next
      case (Cons b0 rest)
      with True Inr assms(3) have "b0 AND 1 \<noteq> 0"
        by (simp add: keyframe_indicator_def parsed_payload_def)
      with and_one_cases [of b0] have "b0 AND 1 = 1" by simp
      with True assms(1,2) Inr Cons show ?thesis by (simp add: WriteRTP_def)
    qed
  qed
qed

lemma WriteRTPs_before_keyframe:
  assumes "isVP8 i" "\<not> seenKeyFrame i"
  shows "\<forall>pkt\<in>set pkts. keyframe_indicator ext pkt \<noteq> Some 0 \<Longrightarrow>
         snd (WriteRTPs ext pkts i out) = (i, out)"
proof (induction pkts)
  case Nil
  then show ?case by simp
next
  case (Cons pkt pkts)
  then have k: "keyframe_indicator ext pkt \<noteq> Some 0" by simp
  from WriteRTP_before_keyframe [OF assms k, of out] Cons show ?case
    by (cases "WriteRTP ext pkt i out"; cases "WriteRTPs ext pkts i out") auto
qed

text \<open>One packet that WriteRTP accepts on the VP8 path.\<close>

lemma WriteRTP_accepted:
  assumes "ioWriter i" "isVP8 i"
    and "Payload pkt \<noteq> []" "parsed_payload ext pkt \<noteq> []"
    and "seenKeyFrame i \<or> keyframe_indicator ext pkt = Some 0"
    and "currentFrame i \<noteq> [] \<or> parsed_S ext pkt = Some 1"
    and "j = (if \<not> seenKeyFrame i
              then i\<lparr>seenKeyFrame := True, firstTimestamp := Timestamp pkt\<rparr> else i)
             \<lparr>currentFrame := currentFrame i @ parsed_payload ext pkt\<rparr>"
  shows "WriteRTP ext pkt i out =
     (if \<not> Marker pkt then (None, j, out)
      else
        (case writeFrame (currentFrame j) j out of
           (Some err, j', out') \<Rightarrow> (Some err, j', out')
         | (None, j', out') \<Rightarrow>
             (None, j'\<lparr>lastTimestamp := Timestamp pkt, currentFrame := []\<rparr>, out')))"
proof (cases "vp8_Unmarshal ext (Payload pkt)")
  case (Inl err)
  with assms(4) show ?thesis by (simp add: parsed_payload_def)
next
  case (Inr v)
  with assms(4) obtain b0 rest where p: "vp8_Payload v = b0 # rest"
    by (cases "vp8_Payload v") (simp_all add: parsed_payload_def)
  from Inr p have pp: "parsed_payload ext pkt = b0 # rest"
    by (simp add: parsed_payload_def)
  from assms(5) assms(3) Inr p have k: "seenKeyFrame i \<or> b0 AND 1 = 0"
    by (simp add: keyframe_indicator_def parsed_payload_def)
  from assms(6) Inr have s: "currentFrame i \<noteq> [] \<or> vp8_S v = 1"
    by (simp add: parsed_S_def)
  have g: "\<not> (currentFrame i = [] \<and> vp8_S v \<noteq> 1)"
    using s by blast
  have c: "\<not> (\<not> seenKeyFrame i \<and> b0 AND 1 = 1)"
    using k by auto
  from assms(1-3) Inr p have "WriteRTP ext pkt i out =
     (let isKeyFrame = b0 AND 1 in
      if \<not> seenKeyFrame i \<and> isKeyFrame = 1 then (None, i, out)
      else if currentFrame i = [] \<and> vp8_S v \<noteq> 1 then (None, i, out)
      else
        (let i = (if \<not> seenKeyFrame i
                  then i\<lparr>seenKeyFrame := True, firstTimestamp := Timestamp pkt\<rparr>
                  else i);
             i = i\<lparr>currentFrame := currentFrame i @ vp8_Payload v\<rparr>
         in if \<not> Marker pkt then (None, i, out)
            else if length (currentFrame i) = 0 then (None, i, out)
            else
              (case writeFrame (currentFrame i) i out of
                 (Some err, i, out) \<Rightarrow> (Some err, i, out)
               | (None, i, out) \<Rightarrow>
                   (None, i\<lparr>lastTimestamp := Timestamp pkt, currentFrame := []\<rparr>,
                    out))))"
    by (simp add: WriteRTP_def)
  also have "\<dots> =
     (if \<not> Marker pkt then (None, j, out)
      else
        (case writeFrame (currentFrame j) j out of
           (Some err, j', out') \<Rightarrow> (Some err, j', out')
         | (None, j', out') \<Rightarrow>
             (None, j'\<lparr>lastTimestamp := Timestamp pkt, currentFrame := []\<rparr>, out')))"
    unfolding Let_def if_not_P [OF c] if_not_P [OF g]
    using p pp assms(7) by (cases "seenKeyFrame i") simp_all
  finally show ?thesis .
qed

lemma assemble_frame:
  assumes sink: "writesLeft out = None" "offset out = length (content out)"
  shows "pkts \<noteq> [] \<Longrightarrow> ioWriter i \<Longrightarrow> isVP8 i \<Longrightarrow>
    \<forall>pkt\<in>set pkts. Payload pkt \<noteq> [] \<and> parsed_payload ext pkt \<noteq> [] \<Longrightarrow>
    seenKeyFrame i \<or> keyframe_indicator ext (hd pkts) = Some 0 \<Longrightarrow>
    currentFrame i \<noteq> [] \<or> parsed_S ext (hd pkts) = Some 1 \<Longrightarrow>
    \<forall>pkt\<in>set (butlast pkts). \<not> Marker pkt \<Longrightarrow> Marker (last pkts) \<Longrightarrow>
    WriteRTPs ext pkts i out =
      (replicate (length pkts) None,
       i\<lparr>seenKeyFrame := True,
          firstTimestamp := (if seenKeyFrame i then firstTimestamp i else Timestamp (hd pkts)),
          currentFrame := [],
          frameCount := frameCount i + 1,
          lastTimestamp := Timestamp (last pkts)\<rparr>,
       out\<lparr>content :=
             content out @
             frameHeader_bytes (currentFrame i @ concat (map (parsed_payload ext) pkts))
               (frameCount i) @
             currentFrame i @ concat (map (parsed_payload ext) pkts),
           offset :=
             length (content out) + 12 +
             length (currentFrame i @ concat (map (parsed_payload ext) pkts))\<rparr>)"
proof (induction pkts arbitrary: i)
  case Nil
  then show ?case by simp
next
  case (Cons pkt pkts)
  define j where "j = (if \<not> seenKeyFrame i
              then i\<lparr>seenKeyFrame := True, firstTimestamp := Timestamp pkt\<rparr> else i)
             \<lparr>currentFrame := currentFrame i @ parsed_payload ext pkt\<rparr>"
  from Cons.prems have a: "Payload pkt \<noteq> []" "parsed_payload ext pkt \<noteq> []"
    "seenKeyFrame i \<or> keyframe_indicator ext pkt = Some 0"
    "currentFrame i \<noteq> [] \<or> parsed_S ext pkt = Some 1"
    by simp_all
  note step = WriteRTP_accepted [OF Cons.prems(2,3) a j_def, of out]
  have jj: "j = i\<lparr>seenKeyFrame := True,
      firstTimestamp := (if seenKeyFrame i then firstTimestamp i else Timestamp pkt),
      currentFrame := currentFrame i @ parsed_payload ext pkt\<rparr>"
    by (cases "seenKeyFrame i") (simp_all add: j_def)
  show ?case
  proof (cases "pkts = []")
    case True
    with Cons.prems have m: "Marker pkt" by simp
    from step m writeFrame_ok [OF sink, of "currentFrame j" j] True show ?thesis
      by (simp add: jj)
  next
    case False
    with Cons.prems have m: "\<not> Marker pkt" by simp
    from step m have s1: "WriteRTP ext pkt i out = (None, j, out)" by simp
    have j1: "ioWriter j" "isVP8 j" "seenKeyFrame j" "currentFrame j \<noteq> []"
      using Cons.prems(2,3) a(2) by (simp_all add: jj)
    from Cons.prems False have r: "\<forall>pkt\<in>set pkts. Payload pkt \<noteq> [] \<and> parsed_payload ext pkt \<noteq> []"
      "\<forall>pkt\<in>set (butlast pkts). \<not> Marker pkt" "Marker (last pkts)"
      by simp_all
    from Cons.IH [OF False j1(1,2) r(1) disjI1 [OF j1(3)] disjI1 [OF j1(4)] r(2,3)] s1 False
    show ?thesis
      by (simp add: jj)
  qed
qed

lemma WriteRTP_not_start:
  assumes "isVP8 i" "currentFrame i = []" "parsed_S ext pkt \<noteq> Some 1"
  shows "snd (WriteRTP ext pkt i out) = (i, out)"
proof (cases "ioWriter i \<and> Payload pkt \<noteq> []")
  case False
  then show ?thesis by (auto simp: WriteRTP_def)
next
  case True
  show ?thesis
  proof (cases "vp8_Unmarshal ext (Payload pkt)")
    case (Inl err)
    with True assms(1) show ?thesis by (simp add: WriteRTP_def)
  next
    case (Inr v)
    with assms(3) have "vp8_S v \<noteq> 1" by (simp add: parsed_S_def)
    with True assms(1,2) Inr show ?thesis
      by (cases "vp8_Payload v") (simp_all add: WriteRTP_def)
  qed
qed

lemma WriteRTPs_not_start:
  assumes "isVP8 i" "currentFrame i = []"
  shows "\<forall>pkt\<in>set pkts. parsed_S ext pkt \<noteq> Some 1 \<Longrightarrow>
         snd (WriteRTPs ext pkts i out) = (i, out) \<and>
         length (fst (WriteRTPs ext pkts i out)) = length pkts"
proof (induction pkts)
  case Nil
  then show ?case by simp
next
  case (Cons pkt pkts)
  then have k: "parsed_S ext pkt \<noteq> Some 1" by simp
  from WriteRTP_not_start [OF assms k, of out] Cons show ?case
    by (cases "WriteRTP ext pkt i out"; cases "WriteRTPs ext pkts i out") auto
qed

lemma WriteRTPs_append:
  "WriteRTPs ext (ps @ qs) i out =
     (case WriteRTPs ext ps i out of
        (es, i1, out1) \<Rightarrow>
          (case WriteRTPs ext qs i1 out1 of (fs, i2, out2) \<Rightarrow> (es @ fs, i2, out2)))"
  by (induction ps arbitrary: i out) (auto split: prod.splits)

lemma WriteRTP_AV1_timestamps:
  assumes "\<not> isVP8 i" "WriteRTP ext pkt i out = (e, i', out')"
  shows "firstTimestamp i' = firstTimestamp i \<and> lastTimestamp i' = lastTimestamp i"
proof -
  have fs: "\<And>obus j e i' out'. writeFrames obus j out = (e, i', out') \<Longrightarrow>
      firstTimestamp i' = firstTimestamp j \<and> lastTimestamp i' = lastTimestamp j"
    by (drule writeFrames_writer) simp
  from assms show ?thesis
    by (auto simp: WriteRTP_def split: if_splits sum.splits prod.splits dest!: fs)
qed

lemma demo_new_AV1:
  "NewWith demo_ext (Some (new_sink seeker closer)) [WithCodec ''video/AV1''] =
     Inr (\<lparr>ioWriter = True, seenKeyFrame = False, isVP8 = False, isAV1 = True,
            currentFrame = [], av1Frame = (), frameCount = 0, clockRate = 0,
            firstTimestamp = 0, lastTimestamp = 0\<rparr>,
          \<lparr>content = [68, 75, 73, 70, 0, 0, 32, 0, 65, 86, 48, 49, 128, 2, 224, 1,
                      24, 0, 0, 0, 1, 0, 0, 0, 132, 3, 0, 0, 0, 0, 0, 0],
            offset = 32, isSeeker = seeker, isCloser = closer, writesLeft = None,
            seekFails = False, closeFails = False, isClosed = False\<rparr>)"
  by (simp add: NewWith_def zero_writer_def demo_ext_def new_sink_def writeHeader_def
      sink_Write_def overwrite_def header_layout string_bytes_def little_endian_2
      little_endian_4 mimeTypeVP8_def mimeTypeAV1_def)

section \<open>Properties\<close>

text \<open>
  C1. A VP8 writer with no partial frame is fed packets. The packets before the first
  start of partition (S = 1) are dropped. From that packet on, which is allowed to
  start a frame (a keyframe was seen before, or the packet shows the keyframe indicator
  0), the packets are accepted (each has a payload and parses to a non-empty payload),
  and only the last one has the marker bit. On a sink that accepts the writes, all
  those calls succeed and exactly one frame is appended: its 12-byte header (length,
  then the frame counter as PTS) followed by the concatenation, in arrival order, of
  the parsed payloads of the packets from the start of partition to the marker packet,
  first byte included. Afterwards the frame buffer is empty, the counter has advanced
  by one, lastTimestamp is the timestamp of the marker packet and firstTimestamp that
  of the start packet if no keyframe had been seen before.
\<close>

theorem VP8_frame_assembly:
  assumes "ioWriter i" "isVP8 i" "currentFrame i = []"
    and "writesLeft out = None" "offset out = length (content out)"
    and "\<forall>pkt\<in>set skipped. parsed_S ext pkt \<noteq> Some 1"
    and "pkts \<noteq> []"
    and "\<forall>pkt\<in>set pkts. Payload pkt \<noteq> [] \<and> parsed_payload ext pkt \<noteq> []"
    and "seenKeyFrame i \<or> keyframe_indicator ext (hd pkts) = Some 0"
    and "parsed_S ext (hd pkts) = Some 1"
    and "\<forall>pkt\<in>set (butlast pkts). \<not> Marker pkt" "Marker (last pkts)"
  shows "\<exists>errs i' out'.
           WriteRTPs ext (skipped @ pkts) i out =
             (errs @ replicate (length pkts) None, i', out') \<and>
           length errs = length skipped \<and>
           content out' =
             content out @
             little_endian 4 (length (concat (map (parsed_payload ext) pkts)) mod 2 ^ 32) @
             little_endian 8 (unat (frameCount i)) @
             concat (map (parsed_payload ext) pkts) \<and>
           currentFrame i' = [] \<and> seenKeyFrame i' \<and>
           frameCount i' = frameCount i + 1 \<and>
           lastTimestamp i' = Timestamp (last pkts) \<and>
           firstTimestamp i' =
             (if seenKeyFrame i then firstTimestamp i else Timestamp (hd pkts))"
proof -
  obtain errs where s: "WriteRTPs ext skipped i out = (errs, i, out)"
    "length errs = length skipped"
    using WriteRTPs_not_start [OF assms(2,3,6), of out]
    by (cases "WriteRTPs ext skipped i out") auto
  from assemble_frame [OF assms(4,5,7,1,2,8,9) disjI2 [OF assms(10)] assms(11,12)] assms(3) s
  show ?thesis
    by (simp add: WriteRTPs_append frameHeader_layout)
qed

theorem VP8_frame_assembly_witness:
  "\<exists>i out err i' out'.
     NewWith demo_ext (Some (new_sink True False)) [] = Inr (i, out) \<and>
     ioWriter i \<and> isVP8 i \<and> currentFrame i = [] \<and>
     writesLeft out = None \<and> offset out = length (content out) \<and>
     parsed_S demo_ext \<lparr>Marker = False, Timestamp = 3000, Payload = [0, 16, 9]\<rparr> = Some 0 \<and>
     parsed_payload demo_ext \<lparr>Marker = False, Timestamp = 3000, Payload = [16, 16, 1]\<rparr>
       = [16, 1] \<and>
     parsed_payload demo_ext \<lparr>Marker = True, Timestamp = 3000, Payload = [0, 2, 3]\<rparr>
       = [2, 3] \<and>
     keyframe_indicator demo_ext \<lparr>Marker = False, Timestamp = 3000, Payload = [16, 16, 1]\<rparr>
       = Some 0 \<and>
     parsed_S demo_ext \<lparr>Marker = False, Timestamp = 3000, Payload = [16, 16, 1]\<rparr> = Some 1 \<and>
     WriteRTPs demo_ext
       [\<lparr>Marker = False, Timestamp = 3000, Payload = [0, 16, 9]\<rparr>,
        \<lparr>Marker = False, Timestamp = 3000, Payload = [16, 16, 1]\<rparr>,
        \<lparr>Marker = True, Timestamp = 3000, Payload = [0, 2, 3]\<rparr>] i out
       = ([err, None, None], i', out') \<and>
     content out' = content out @ [4, 0, 0, 0, 0, 0, 0, 0, 0, 0, 0, 0] @ [16, 1, 2, 3] \<and>
     currentFrame i' = [] \<and> frameCount i' = 1 \<and> lastTimestamp i' = 3000 \<and>
     firstTimestamp i' = 3000"
proof -
  let ?p0 = "\<lparr>Marker = False, Timestamp = 3000, Payload = [0, 16, 9]\<rparr>"
  let ?p1 = "\<lparr>Marker = False, Timestamp = 3000, Payload = [16, 16, 1]\<rparr>"
  let ?p2 = "\<lparr>Marker = True, Timestamp = 3000, Payload = [0, 2, 3]\<rparr>"
  let ?i = "\<lparr>ioWriter = True, seenKeyFrame = False, isVP8 = True, isAV1 = False,
            currentFrame = [], av1Frame = (), frameCount = 0, clockRate = 90000,
            firstTimestamp = 0, lastTimestamp = 0\<rparr>"
  let ?out = "\<lparr>content = [68, 75, 73, 70, 0, 0, 32, 0, 86, 80, 56, 48, 128, 2, 224, 1,
                      24, 0, 0, 0, 1, 0, 0, 0, 132, 3, 0, 0, 0, 0, 0, 0],
            offset = 32, isSeeker = True, isCloser = False, writesLeft = None,
            seekFails = False, closeFails = False, isClosed = False\<rparr>"
  note new = demo_new_VP8 [of True False]
  have w: "ioWriter ?i" "isVP8 ?i" "currentFrame ?i = []"
    "writesLeft ?out = None" "offset ?out = length (content ?out)"
    by simp_all
  have p: "parsed_S demo_ext ?p0 = Some 0"
    "parsed_payload demo_ext ?p1 = [16, 1]" "parsed_payload demo_ext ?p2 = [2, 3]"
    "keyframe_indicator demo_ext ?p1 = Some 0" "parsed_S demo_ext ?p1 = Some 1"
    by (simp_all add: parsed_payload_def keyframe_indicator_def parsed_S_def demo_ext_def)
  have h: "\<forall>pkt\<in>set [?p0]. parsed_S demo_ext pkt \<noteq> Some 1"
    "[?p1, ?p2] \<noteq> []"
    "\<forall>pkt\<in>set [?p1, ?p2]. Payload pkt \<noteq> [] \<and> parsed_payload demo_ext pkt \<noteq> []"
    "seenKeyFrame ?i \<or> keyframe_indicator demo_ext (hd [?p1, ?p2]) = Some 0"
    "parsed_S demo_ext (hd [?p1, ?p2]) = Some 1"
    "\<forall>pkt\<in>set (butlast [?p1, ?p2]). \<not> Marker pkt" "Marker (last [?p1, ?p2])"
    using p by simp_all
  from VP8_frame_assembly [OF w h] obtain errs i' out' where
    r: "WriteRTPs demo_ext ([?p0] @ [?p1, ?p2]) ?i ?out =
          (errs @ replicate (length [?p1, ?p2]) None, i', out')"
    "length errs = length [?p0]"
    "content out' =
       content ?out @
       little_endian 4 (length (concat (map (parsed_payload demo_ext) [?p1, ?p2])) mod 2 ^ 32) @
       little_endian 8 (unat (frameCount ?i)) @
       concat (map (parsed_payload demo_ext) [?p1, ?p2])"
    "currentFrame i' = []" "frameCount i' = frameCount ?i + 1"
    "lastTimestamp i' = Timestamp (last [?p1, ?p2])"
    "firstTimestamp i' = (if seenKeyFrame ?i then firstTimestamp ?i else Timestamp (hd [?p1, ?p2]))"
    by blast
  from r(2) obtain err where e: "errs = [err]"
    by (cases errs) simp_all
  from r(1) e have r1: "WriteRTPs demo_ext [?p0, ?p1, ?p2] ?i ?out = ([err, None, None], i', out')"
    by (simp del: WriteRTPs.simps)
  from r(3) have r2: "content out' = content ?out @ [4, 0, 0, 0, 0, 0, 0, 0, 0, 0, 0, 0] @ [16, 1, 2, 3]"
    by (simp add: p little_endian_4 little_endian_8)
  from r(5-7) have r3: "frameCount i' = 1" "lastTimestamp i' = 3000" "firstTimestamp i' = 3000"
    by simp_all
  show ?thesis
    by (intro exI conjI, rule new, (rule w)+, (rule p)+, rule r1, rule r2, rule r(4), (rule r3)+)
qed

text \<open>
  C2. A VP8 writer made by NewWith on a new, empty sink is fed packets. As long as no
  packet shows the keyframe indicator 0 (the low bit of the first byte of its parsed
  payload), WriteRTP changes neither the writer nor the sink: no frame is written,
  nothing is buffered, the frame counter is 0, and the sink holds exactly the 32 bytes
  of the file header.
\<close>

theorem no_keyframe_no_frame:
  assumes "content out0 = []" "offset out0 = 0"
    and "NewWith ext (Some out0) opts = Inr (i, out)"
    and "isVP8 i"
    and "\<forall>pkt\<in>set pkts. keyframe_indicator ext pkt \<noteq> Some 0"
  shows "snd (WriteRTPs ext pkts i out) = (i, out) \<and>
         currentFrame i = [] \<and> frameCount i = 0 \<and> \<not> seenKeyFrame i \<and>
         content out = header_bytes i \<and> length (content out) = 32"
proof -
  note n = NewWith_Some [OF assms(3)]
  from n assms(1,2) have c: "content out = header_bytes i"
    by (auto simp: sink_Write_def overwrite_def split: if_splits)
  from n have s: "\<not> seenKeyFrame i" by simp
  from WriteRTPs_before_keyframe [OF assms(4) s assms(5), of out] n c show ?thesis
    by simp
qed

theorem no_keyframe_no_frame_witness:
  "content (new_sink True False) = [] \<and> offset (new_sink True False) = 0 \<and>
   (\<exists>i out. NewWith demo_ext (Some (new_sink True False)) [] = Inr (i, out) \<and> isVP8 i \<and>
      keyframe_indicator demo_ext \<lparr>Marker = True, Timestamp = 10, Payload = [16, 1, 7]\<rparr>
        = Some 1 \<and>
      keyframe_indicator demo_ext \<lparr>Marker = False, Timestamp = 20, Payload = []\<rparr> = None \<and>
      keyframe_indicator demo_ext \<lparr>Marker = True, Timestamp = 30, Payload = [0, 3, 8]\<rparr>
        = Some 1 \<and>
      snd (WriteRTPs demo_ext
             [\<lparr>Marker = True, Timestamp = 10, Payload = [16, 1, 7]\<rparr>,
              \<lparr>Marker = False, Timestamp = 20, Payload = []\<rparr>,
              \<lparr>Marker = True, Timestamp = 30, Payload = [0, 3, 8]\<rparr>] i out) = (i, out) \<and>
      frameCount i = 0 \<and>
      content out = [68, 75, 73, 70, 0, 0, 32, 0, 86, 80, 56, 48, 128, 2, 224, 1,
                     24, 0, 0, 0, 1, 0, 0, 0, 132, 3, 0, 0, 0, 0, 0, 0])"
proof -
  have s: "content (new_sink True False) = []" "offset (new_sink True False) = 0"
    by (simp_all add: new_sink_def)
  note new = demo_new_VP8 [of True False]
  have k: "keyframe_indicator demo_ext \<lparr>Marker = True, Timestamp = 10, Payload = [16, 1, 7]\<rparr>
        = Some 1"
    "keyframe_indicator demo_ext \<lparr>Marker = False, Timestamp = 20, Payload = []\<rparr> = None"
    "keyframe_indicator demo_ext \<lparr>Marker = True, Timestamp = 30, Payload = [0, 3, 8]\<rparr>
        = Some 1"
    by (simp_all add: keyframe_indicator_def parsed_payload_def demo_ext_def)
  have v: "isVP8 \<lparr>ioWriter = True, seenKeyFrame = False, isVP8 = True, isAV1 = False,
            currentFrame = [], av1Frame = (), frameCount = 0, clockRate = 90000,
            firstTimestamp = 0, lastTimestamp = 0\<rparr>"
    by simp
  have a: "\<forall>pkt\<in>set [\<lparr>Marker = True, Timestamp = 10, Payload = [16, 1, 7]\<rparr>,
              \<lparr>Marker = False, Timestamp = 20, Payload = []\<rparr>,
              \<lparr>Marker = True, Timestamp = 30, Payload = [0, 3, 8]\<rparr>].
            keyframe_indicator demo_ext pkt \<noteq> Some 0"
    using k by simp
  from no_keyframe_no_frame [OF s new v a]
  have r: "snd (WriteRTPs demo_ext
             [\<lparr>Marker = True, Timestamp = 10, Payload = [16, 1, 7]\<rparr>,
              \<lparr>Marker = False, Timestamp = 20, Payload = []\<rparr>,
              \<lparr>Marker = True, Timestamp = 30, Payload = [0, 3, 8]\<rparr>]
             \<lparr>ioWriter = True, seenKeyFrame = False, isVP8 = True, isAV1 = False,
              currentFrame = [], av1Frame = (), frameCount = 0, clockRate = 90000,
              firstTimestamp = 0, lastTimestamp = 0\<rparr>
             \<lparr>content = [68, 75, 73, 70, 0, 0, 32, 0, 86, 80, 56, 48, 128, 2, 224, 1,
                      24, 0, 0, 0, 1, 0, 0, 0, 132, 3, 0, 0, 0, 0, 0, 0],
              offset = 32, isSeeker = True, isCloser = False, writesLeft = None,
              seekFails = False, closeFails = False, isClosed = False\<rparr>) =
           (\<lparr>ioWriter = True, seenKeyFrame = False, isVP8 = True, isAV1 = False,
              currentFrame = [], av1Frame = (), frameCount = 0, clockRate = 90000,
              firstTimestamp = 0, lastTimestamp = 0\<rparr>,
            \<lparr>content = [68, 75, 73, 70, 0, 0, 32, 0, 86, 80, 56, 48, 128, 2, 224, 1,
                      24, 0, 0, 0, 1, 0, 0, 0, 132, 3, 0, 0, 0, 0, 0, 0],
              offset = 32, isSeeker = True, isCloser = False, writesLeft = None,
              seekFails = False, closeFails = False, isClosed = False\<rparr>)"
    by blast
  show ?thesis
    by (intro conjI exI, (rule s)+, rule new, rule v, (rule k)+, rule r) simp_all
qed

text \<open>
  C3. After any interleaving of writeFrame and FrameDropped calls on a writer whose
  frame counter started at 0, whether or not the writes succeeded, a writeFrame on a
  sink that accepts it appends the 12-byte frame header and the frame, and the 8-byte
  PTS field of that header, read back little-endian, is the number of calls that came
  before, as a uint64: the number itself below \<open>2 ^ 64\<close> calls.
\<close>

theorem PTS_is_slot_count:
  assumes "frameCount i = 0"
    and "run_slots pre i out = (i1, out1)"
    and "writesLeft out1 = None" "offset out1 = length (content out1)"
  shows "\<exists>out2.
           writeFrame frame i1 out1 = (None, i1\<lparr>frameCount := frameCount i1 + 1\<rparr>, out2) \<and>
           content out2 =
             content out1 @ little_endian 4 (length frame mod 2 ^ 32) @
             little_endian 8 (length pre mod 2 ^ 64) @ frame \<and>
           le_value (take 8 (drop (length (content out1) + 4) (content out2)))
             = length pre mod 2 ^ 64 \<and>
           (length pre < 2 ^ 64 \<longrightarrow>
              le_value (take 8 (drop (length (content out1) + 4) (content out2)))
                = length pre)"
proof -
  from run_slots_count [OF assms(2)] assms(1)
  have "frameCount i1 = of_nat (length pre)" by simp
  then have u: "unat (frameCount i1) = length pre mod 2 ^ 64"
    by (simp add: unat_of_nat take_bit_eq_mod)
  have v: "le_value (little_endian 8 (length pre mod 2 ^ 64)) = length pre mod 2 ^ 64"
    "le_value (little_endian 8 (length pre)) = length pre mod 2 ^ 64"
    by (simp_all add: le_value_little_endian)
  show ?thesis
    using writeFrame_ok [OF assms(3,4), of frame i1] v
    by (simp add: frameHeader_layout u)
qed

theorem PTS_is_slot_count_witness:
  "\<exists>i out i1 out1 out2.
     NewWith demo_ext (Some (new_sink False False)) [] = Inr (i, out) \<and>
     frameCount i = 0 \<and>
     run_slots [SlotFrameDropped, SlotWriteFrame [1, 2], SlotFrameDropped] i out = (i1, out1) \<and>
     writesLeft out1 = None \<and> offset out1 = length (content out1) \<and>
     writeFrame [9] i1 out1 = (None, i1\<lparr>frameCount := 4\<rparr>, out2) \<and>
     content out2 = content out1 @ [1, 0, 0, 0, 3, 0, 0, 0, 0, 0, 0, 0, 9] \<and>
     le_value (take 8 (drop (length (content out1) + 4) (content out2))) = 3"
proof -
  let ?hdr = "[68, 75, 73, 70, 0, 0, 32, 0, 86, 80, 56, 48, 128, 2, 224, 1,
         24, 0, 0, 0, 1, 0, 0, 0, 132, 3, 0, 0, 0, 0, 0, 0] :: bytes"
  let ?i = "\<lparr>ioWriter = True, seenKeyFrame = False, isVP8 = True, isAV1 = False,
            currentFrame = [], av1Frame = (), frameCount = 0, clockRate = 90000,
            firstTimestamp = 0, lastTimestamp = 0\<rparr>"
  let ?out = "\<lparr>content = ?hdr, offset = 32, isSeeker = False, isCloser = False,
            writesLeft = None, seekFails = False, closeFails = False, isClosed = False\<rparr>"
  let ?i1 = "\<lparr>ioWriter = True, seenKeyFrame = False, isVP8 = True, isAV1 = False,
            currentFrame = [], av1Frame = (), frameCount = 3, clockRate = 90000,
            firstTimestamp = 0, lastTimestamp = 0\<rparr>"
  let ?out1 = "\<lparr>content = ?hdr @ [2, 0, 0, 0, 1, 0, 0, 0, 0, 0, 0, 0, 1, 2], offset = 46,
            isSeeker = False, isCloser = False,
            writesLeft = None, seekFails = False, closeFails = False, isClosed = False\<rparr>"
  note new = demo_new_VP8 [of False False]
  have c: "frameCount ?i = 0" by simp
  have rs: "run_slots [SlotFrameDropped, SlotWriteFrame [1, 2], SlotFrameDropped] ?i ?out
      = (?i1, ?out1)"
    by (simp add: FrameDropped_def writeFrame_def sink_Write_def overwrite_def
        frameHeader_layout little_endian_4 little_endian_8)
  have s: "writesLeft ?out1 = None" "offset ?out1 = length (content ?out1)"
    by simp_all
  from PTS_is_slot_count [OF c rs s, of "[9]"] obtain out2 where
    "writeFrame [9] ?i1 ?out1 = (None, ?i1\<lparr>frameCount := frameCount ?i1 + 1\<rparr>, out2)"
    "content out2 = content ?out1 @ little_endian 4 (length [9 :: byte] mod 2 ^ 32) @
             little_endian 8 (length [SlotFrameDropped, SlotWriteFrame [1, 2], SlotFrameDropped]
               mod 2 ^ 64) @ [9]"
    "le_value (take 8 (drop (length (content ?out1) + 4) (content out2)))
             = length [SlotFrameDropped, SlotWriteFrame [1, 2], SlotFrameDropped] mod 2 ^ 64"
    by blast
  then have
    "writeFrame [9] ?i1 ?out1 = (None, ?i1\<lparr>frameCount := 4\<rparr>, out2) \<and>
     content out2 = content ?out1 @ [1, 0, 0, 0, 3, 0, 0, 0, 0, 0, 0, 0, 9] \<and>
     le_value (take 8 (drop (length (content ?out1) + 4) (content out2))) = 3"
    by (simp add: little_endian_4 little_endian_8)
  with new c rs s show ?thesis by blast
qed

text \<open>
  C4. When lastTimestamp equals firstTimestamp, Close has no guard and no error for the
  rate: on a seekable sink whose Seek and Write succeed and that holds the header, it
  asks the rate estimator for the quotient with divisor 0 and writes the numerator and
  denominator it answers, and the frame count in 32 bits, over bytes 16 to 27. The
  writer is released and the result is that of the sink's Close, success when it has
  none.
\<close>

theorem Close_zero_span:
  assumes "ioWriter i" "isSeeker out" "\<not> seekFails out" "writesLeft out \<noteq> Some 0"
    and "28 \<le> length (content out)"
    and "lastTimestamp i = firstTimestamp i"
  shows "\<exists>out'. Close ext i out =
           (if isCloser out \<and> closeFails out then Some errClose else None,
            i\<lparr>ioWriter := False\<rparr>, out') \<and>
         content out' =
           take 16 (content out) @
           little_endian 4 (unat (fst (GetBestMatch ext (clockRate i) (frameCount i) 0))) @
           little_endian 4 (unat (snd (GetBestMatch ext (clockRate i) (frameCount i) 0))) @
           little_endian 4 (unat (frameCount i) mod 2 ^ 32) @
           drop 28 (content out)"
  using assms
  by (cases "GetBestMatch ext (clockRate i) (frameCount i) 0")
    (simp add: Close_def sink_Seek_def sink_Write_def sink_Close_def overwrite_def
      close_buff_layout Let_def)

theorem Close_zero_span_witness:
  "\<exists>i out out'.
     NewWith demo_ext (Some (new_sink True True)) [] = Inr (i, out) \<and>
     ioWriter i \<and> isSeeker out \<and> \<not> seekFails out \<and> writesLeft out \<noteq> Some 0 \<and>
     28 \<le> length (content out) \<and> lastTimestamp i = firstTimestamp i \<and>
     Close demo_ext i out = (None, i\<lparr>ioWriter := False\<rparr>, out') \<and>
     content out' = [68, 75, 73, 70, 0, 0, 32, 0, 86, 80, 56, 48, 128, 2, 224, 1,
                     30, 0, 0, 0, 1, 0, 0, 0, 0, 0, 0, 0, 0, 0, 0, 0]"
  using Close_zero_span
    [of "\<lparr>ioWriter = True, seenKeyFrame = False, isVP8 = True, isAV1 = False,
      currentFrame = [], av1Frame = (), frameCount = 0, clockRate = 90000,
      firstTimestamp = 0, lastTimestamp = 0\<rparr>"
     "\<lparr>content = [68, 75, 73, 70, 0, 0, 32, 0, 86, 80, 56, 48, 128, 2, 224, 1,
                 24, 0, 0, 0, 1, 0, 0, 0, 132, 3, 0, 0, 0, 0, 0, 0],
      offset = 32, isSeeker = True, isCloser = True, writesLeft = None,
      seekFails = False, closeFails = False, isClosed = False\<rparr>" demo_ext]
    demo_new_VP8 [of True True]
  by (simp add: demo_ext_def little_endian_4)

text \<open>
  The claim as the specification states it fails on a writer that NewWith has just
  made on a seekable sink: no frame was completed, lastTimestamp equals firstTimestamp,
  and Close returns no error and overwrites the rate fields of the header.
\<close>

theorem Close_zero_span_counterexample:
  "NewWith demo_ext (Some (new_sink True True)) [] =
     Inr (\<lparr>ioWriter = True, seenKeyFrame = False, isVP8 = True, isAV1 = False,
            currentFrame = [], av1Frame = (), frameCount = 0, clockRate = 90000,
            firstTimestamp = 0, lastTimestamp = 0\<rparr>,
          \<lparr>content = [68, 75, 73, 70, 0, 0, 32, 0, 86, 80, 56, 48, 128, 2, 224, 1,
                      24, 0, 0, 0, 1, 0, 0, 0, 132, 3, 0, 0, 0, 0, 0, 0],
            offset = 32, isSeeker = True, isCloser = True, writesLeft = None,
            seekFails = False, closeFails = False, isClosed = False\<rparr>) \<and>
   Close demo_ext
     \<lparr>ioWriter = True, seenKeyFrame = False, isVP8 = True, isAV1 = False,
      currentFrame = [], av1Frame = (), frameCount = 0, clockRate = 90000,
      firstTimestamp = 0, lastTimestamp = 0\<rparr>
     \<lparr>content = [68, 75, 73, 70, 0, 0, 32, 0, 86, 80, 56, 48, 128, 2, 224, 1,
                 24, 0, 0, 0, 1, 0, 0, 0, 132, 3, 0, 0, 0, 0, 0, 0],
      offset = 32, isSeeker = True, isCloser = True, writesLeft = None,
      seekFails = False, closeFails = False, isClosed = False\<rparr> =
   (None,
    \<lparr>ioWriter = False, seenKeyFrame = False, isVP8 = True, isAV1 = False,
      currentFrame = [], av1Frame = (), frameCount = 0, clockRate = 90000,
      firstTimestamp = 0, lastTimestamp = 0\<rparr>,
    \<lparr>content = [68, 75, 73, 70, 0, 0, 32, 0, 86, 80, 56, 48, 128, 2, 224, 1,
                 30, 0, 0, 0, 1, 0, 0, 0, 0, 0, 0, 0, 0, 0, 0, 0],
      offset = 28, isSeeker = True, isCloser = True, writesLeft = None,
      seekFails = False, closeFails = False, isClosed = True\<rparr>)"
  using demo_new_VP8 [of True True] demo_Close_seekable by simp

text \<open>
  C5. A Close after a first Close returns no error and changes nothing: the writer and
  the sink, and so the bytes the sink holds, are those the first Close left, whatever
  the first Close returned.
\<close>

theorem Close_twice:
  "Close ext i out = (err, i1, out1) \<Longrightarrow> Close ext i1 out1 = (None, i1, out1)"
  using Close_releases [of ext i out err i1 out1] by (simp add: Close_def)

theorem Close_twice_witness:
  "\<exists>i out i1 out1.
     NewWith demo_ext (Some (new_sink True True)) [] = Inr (i, out) \<and>
     Close demo_ext i out = (None, i1, out1) \<and>
     content out1 = [68, 75, 73, 70, 0, 0, 32, 0, 86, 80, 56, 48, 128, 2, 224, 1,
                     30, 0, 0, 0, 1, 0, 0, 0, 0, 0, 0, 0, 0, 0, 0, 0] \<and>
     Close demo_ext i1 out1 = (None, i1, out1)"
  using Close_twice [OF demo_Close_seekable] demo_Close_seekable demo_new_VP8 [of True True]
  by simp

text \<open>
  C6. On the VP8 path the timestamps are recorded (firstTimestamp at the sync packet,
  lastTimestamp at every completed frame, see C1). On the AV1 path they are not: an AV1
  writer made by NewWith receives a packet with timestamp 3000 that yields one OBU; the
  OBU is written as frame 0 and the counter advances to 1, and firstTimestamp and
  lastTimestamp are still 0.
\<close>

theorem AV1_timestamps_not_updated:
  "NewWith demo_ext (Some (new_sink True False)) [WithCodec ''video/AV1''] =
     Inr (\<lparr>ioWriter = True, seenKeyFrame = False, isVP8 = False, isAV1 = True,
            currentFrame = [], av1Frame = (), frameCount = 0, clockRate = 0,
            firstTimestamp = 0, lastTimestamp = 0\<rparr>,
          \<lparr>content = [68, 75, 73, 70, 0, 0, 32, 0, 65, 86, 48, 49, 128, 2, 224, 1,
                      24, 0, 0, 0, 1, 0, 0, 0, 132, 3, 0, 0, 0, 0, 0, 0],
            offset = 32, isSeeker = True, isCloser = False, writesLeft = None,
            seekFails = False, closeFails = False, isClosed = False\<rparr>) \<and>
   WriteRTP demo_ext \<lparr>Marker = True, Timestamp = 3000, Payload = [1, 2, 3]\<rparr>
     \<lparr>ioWriter = True, seenKeyFrame = False, isVP8 = False, isAV1 = True,
      currentFrame = [], av1Frame = (), frameCount = 0, clockRate = 0,
      firstTimestamp = 0, lastTimestamp = 0\<rparr>
     \<lparr>content = [68, 75, 73, 70, 0, 0, 32, 0, 65, 86, 48, 49, 128, 2, 224, 1,
                 24, 0, 0, 0, 1, 0, 0, 0, 132, 3, 0, 0, 0, 0, 0, 0],
      offset = 32, isSeeker = True, isCloser = False, writesLeft = None,
      seekFails = False, closeFails = False, isClosed = False\<rparr> =
   (None,
    \<lparr>ioWriter = True, seenKeyFrame = False, isVP8 = False, isAV1 = True,
      currentFrame = [], av1Frame = (), frameCount = 1, clockRate = 0,
      firstTimestamp = 0, lastTimestamp = 0\<rparr>,
    \<lparr>content = [68, 75, 73, 70, 0, 0, 32, 0, 65, 86, 48, 49, 128, 2, 224, 1,
                 24, 0, 0, 0, 1, 0, 0, 0, 132, 3, 0, 0, 0, 0, 0, 0,
                 3, 0, 0, 0, 0, 0, 0, 0, 0, 0, 0, 0, 1, 2, 3],
      offset = 47, isSeeker = True, isCloser = False, writesLeft = None,
      seekFails = False, closeFails = False, isClosed = False\<rparr>)"
proof -
  have "WriteRTP demo_ext \<lparr>Marker = True, Timestamp = 3000, Payload = [1, 2, 3]\<rparr>
     \<lparr>ioWriter = True, seenKeyFrame = False, isVP8 = False, isAV1 = True,
      currentFrame = [], av1Frame = (), frameCount = 0, clockRate = 0,
      firstTimestamp = 0, lastTimestamp = 0\<rparr>
     \<lparr>content = [68, 75, 73, 70, 0, 0, 32, 0, 65, 86, 48, 49, 128, 2, 224, 1,
                 24, 0, 0, 0, 1, 0, 0, 0, 132, 3, 0, 0, 0, 0, 0, 0],
      offset = 32, isSeeker = True, isCloser = False, writesLeft = None,
      seekFails = False, closeFails = False, isClosed = False\<rparr> =
   (None,
    \<lparr>ioWriter = True, seenKeyFrame = False, isVP8 = False, isAV1 = True,
      currentFrame = [], av1Frame = (), frameCount = 1, clockRate = 0,
      firstTimestamp = 0, lastTimestamp = 0\<rparr>,
    \<lparr>content = [68, 75, 73, 70, 0, 0, 32, 0, 65, 86, 48, 49, 128, 2, 224, 1,
                 24, 0, 0, 0, 1, 0, 0, 0, 132, 3, 0, 0, 0, 0, 0, 0,
                 3, 0, 0, 0, 0, 0, 0, 0, 0, 0, 0, 0, 1, 2, 3],
      offset = 47, isSeeker = True, isCloser = False, writesLeft = None,
      seekFails = False, closeFails = False, isClosed = False\<rparr>)"
    by (simp add: WriteRTP_def demo_ext_def writeFrame_def sink_Write_def overwrite_def
        frameHeader_layout little_endian_4 little_endian_8)
  with demo_new_AV1 [of True False] show ?thesis by simp
qed

text \<open>
  C7. On a sink that is not seekable, Close patches nothing. For a writer made by
  NewWith on a new sink without Seek, after any calls of WriteRTP and FrameDropped,
  Close leaves the bytes of the sink as they are, so bytes 16 to 27 still hold the
  numerator 24, the denominator 1 and the frame count 900 that NewWith wrote; the
  writer is released, and the result is that of the sink's Close when it has one and
  success otherwise: the missing Seek is no error.
\<close>

theorem Close_not_seekable:
  assumes sink: "\<not> isSeeker out0" "content out0 = []" "offset out0 = 0"
    and new: "NewWith ext (Some out0) opts = Inr (i, out)"
    and calls: "run_calls ext cs i out = (i1, out1)"
  shows "\<exists>out2. Close ext i1 out1 =
           (if isCloser out0 \<and> closeFails out0 then Some errClose else None,
            i1\<lparr>ioWriter := False\<rparr>, out2) \<and>
         content out2 = content out1 \<and>
         take 32 (content out2) = header_bytes i \<and>
         take 12 (drop 16 (content out2)) =
           little_endian 4 24 @ little_endian 4 1 @ little_endian 4 900"
proof -
  note n = NewWith_Some [OF new]
  from n sink have out: "out = out0\<lparr>content := header_bytes i, offset := 32,
      writesLeft := map_option (\<lambda>n. n - 1) (writesLeft out0)\<rparr>"
    by (auto simp: sink_Write_def overwrite_def split: if_splits)
  then have e: "offset out = length (content out)" by simp
  from run_calls_grown [OF e calls] obtain bs wl where
    out1: "out1 = out\<lparr>content := content out @ bs,
                       offset := length (content out) + length bs, writesLeft := wl\<rparr>"
    by blast
  from run_calls_keeps [OF calls] n have o: "ioWriter i1" by simp
  from out out1 sink have s: "\<not> isSeeker out1" "isCloser out1 = isCloser out0"
    "closeFails out1 = closeFails out0"
    by simp_all
  from out out1 have c: "content out1 = header_bytes i @ bs" by simp
  have "take 12 (drop 16 (content out1)) = take 12 (drop 16 (header_bytes i))"
    by (simp add: c)
  with Close_without_seek [OF o s(1), of ext] s c show ?thesis
    by (simp add: header_rate_fields sink_Close_def)
qed

theorem Close_not_seekable_witness:
  "\<not> isSeeker (new_sink False True) \<and> content (new_sink False True) = [] \<and>
   offset (new_sink False True) = 0 \<and>
   (\<exists>i out i1 out1 out2.
      NewWith demo_ext (Some (new_sink False True)) [] = Inr (i, out) \<and>
      run_calls demo_ext
        [CallFrameDropped,
         CallWriteRTP \<lparr>Marker = True, Timestamp = 3000, Payload = [16, 16, 170, 187]\<rparr>]
        i out = (i1, out1) \<and>
      Close demo_ext i1 out1 = (None, i1\<lparr>ioWriter := False\<rparr>, out2) \<and>
      content out2 =
        [68, 75, 73, 70, 0, 0, 32, 0, 86, 80, 56, 48, 128, 2, 224, 1,
         24, 0, 0, 0, 1, 0, 0, 0, 132, 3, 0, 0, 0, 0, 0, 0,
         3, 0, 0, 0, 1, 0, 0, 0, 0, 0, 0, 0, 16, 170, 187] \<and>
      take 12 (drop 16 (content out2)) = [24, 0, 0, 0, 1, 0, 0, 0, 132, 3, 0, 0])"
proof -
  let ?hdr = "[68, 75, 73, 70, 0, 0, 32, 0, 86, 80, 56, 48, 128, 2, 224, 1,
         24, 0, 0, 0, 1, 0, 0, 0, 132, 3, 0, 0, 0, 0, 0, 0] :: bytes"
  have s: "\<not> isSeeker (new_sink False True)" "content (new_sink False True) = []"
    "offset (new_sink False True) = 0"
    by (simp_all add: new_sink_def)
  note new = demo_new_VP8 [of False True]
  have calls: "run_calls demo_ext
        [CallFrameDropped,
         CallWriteRTP \<lparr>Marker = True, Timestamp = 3000, Payload = [16, 16, 170, 187]\<rparr>]
        \<lparr>ioWriter = True, seenKeyFrame = False, isVP8 = True, isAV1 = False,
            currentFrame = [], av1Frame = (), frameCount = 0, clockRate = 90000,
            firstTimestamp = 0, lastTimestamp = 0\<rparr>
        \<lparr>content = ?hdr,
            offset = 32, isSeeker = False, isCloser = True, writesLeft = None,
            seekFails = False, closeFails = False, isClosed = False\<rparr> =
      (\<lparr>ioWriter = True, seenKeyFrame = True, isVP8 = True, isAV1 = False,
        currentFrame = [], av1Frame = (), frameCount = 2, clockRate = 90000,
        firstTimestamp = 3000, lastTimestamp = 3000\<rparr>,
       \<lparr>content = ?hdr @ [3, 0, 0, 0, 1, 0, 0, 0, 0, 0, 0, 0, 16, 170, 187],
        offset = 47, isSeeker = False, isCloser = True,
        writesLeft = None, seekFails = False, closeFails = False, isClosed = False\<rparr>)"
    using demo_keyframe_packet [of 32 ?hdr False True] by (simp add: FrameDropped_def)
  from Close_not_seekable [OF s new calls] obtain out2 where
    "Close demo_ext
       \<lparr>ioWriter = True, seenKeyFrame = True, isVP8 = True, isAV1 = False,
        currentFrame = [], av1Frame = (), frameCount = 2, clockRate = 90000,
        firstTimestamp = 3000, lastTimestamp = 3000\<rparr>
       \<lparr>content = ?hdr @ [3, 0, 0, 0, 1, 0, 0, 0, 0, 0, 0, 0, 16, 170, 187],
        offset = 47, isSeeker = False, isCloser = True,
        writesLeft = None, seekFails = False, closeFails = False, isClosed = False\<rparr>
     = (None,
        \<lparr>ioWriter = False, seenKeyFrame = True, isVP8 = True, isAV1 = False,
        currentFrame = [], av1Frame = (), frameCount = 2, clockRate = 90000,
        firstTimestamp = 3000, lastTimestamp = 3000\<rparr>, out2)"
    "content out2 = ?hdr @ [3, 0, 0, 0, 1, 0, 0, 0, 0, 0, 0, 0, 16, 170, 187]"
    "take 12 (drop 16 (content out2)) = little_endian 4 24 @ little_endian 4 1 @ little_endian 4 900"
    by (auto simp: new_sink_def)
  with s new calls show ?thesis
    by (simp add: little_endian_4)
qed

text \<open>
  C8. NewWith without a sink fails with errFileNotOpened. With a sink, options that
  apply and a Write that succeeds, it returns the writer with exactly one codec bound
  and the sink holds, after what it held before, the 32 bytes of the file header: the
  signature DKIF, version 0 and header length 32 in 16 bits, the FOURCC VP80 when VP8 is
  bound and AV01 when AV1 is bound, width 640 and height 480 in 16 bits, then the
  numerator 24, the denominator 1, the frame count 900 and a reserved 0 in 32 bits,
  every integer little-endian.
\<close>

theorem NewWith_file_header:
  "NewWith ext None opts = Inl errFileNotOpened \<and>
   (apply_options opts (zero_writer ext) = Inr w \<and> writesLeft out \<noteq> Some 0 \<and>
    offset out = length (content out) \<longrightarrow>
    (\<exists>i out'. NewWith ext (Some out) opts = Inr (i, out') \<and> isVP8 i \<noteq> isAV1 i \<and>
       length (content out') = length (content out) + 32 \<and>
       content out' =
         content out @ string_bytes ''DKIF'' @ little_endian 2 0 @ little_endian 2 32 @
         string_bytes (if isVP8 i then ''VP80'' else ''AV01'') @
         little_endian 2 640 @ little_endian 2 480 @ little_endian 4 24 @
         little_endian 4 1 @ little_endian 4 900 @ little_endian 4 0))"
proof (intro conjI impI)
  show "NewWith ext None opts = Inl errFileNotOpened"
    by (simp add: NewWith_def)
next
  assume h: "apply_options opts (zero_writer ext) = Inr w \<and> writesLeft out \<noteq> Some 0 \<and>
    offset out = length (content out)"
  then obtain i out' where n: "NewWith ext (Some out) opts = Inr (i, out')"
    using NewWith_succeeds by blast
  from NewWith_Some [OF n] have c: "isVP8 i \<noteq> isAV1 i"
    and s: "sink_Write out (header_bytes i) = (None, out')"
    by simp_all
  from s h have "content out' = content out @ header_bytes i"
    by (auto simp: sink_Write_def overwrite_at_end split: if_splits)
  with c n show "\<exists>i out'. NewWith ext (Some out) opts = Inr (i, out') \<and> isVP8 i \<noteq> isAV1 i \<and>
       length (content out') = length (content out) + 32 \<and>
       content out' =
         content out @ string_bytes ''DKIF'' @ little_endian 2 0 @ little_endian 2 32 @
         string_bytes (if isVP8 i then ''VP80'' else ''AV01'') @
         little_endian 2 640 @ little_endian 2 480 @ little_endian 4 24 @
         little_endian 4 1 @ little_endian 4 900 @ little_endian 4 0"
    by (intro exI [of _ i] exI [of _ out']) (auto simp: header_layout string_bytes_def)
qed

theorem NewWith_file_header_witness:
  "apply_options [WithCodec ''video/AV1''] (zero_writer demo_ext)
     = Inr ((zero_writer demo_ext)\<lparr>isAV1 := True\<rparr>) \<and>
   writesLeft (new_sink True False) \<noteq> Some 0 \<and>
   offset (new_sink True False) = length (content (new_sink True False)) \<and>
   (\<exists>i out'. NewWith demo_ext (Some (new_sink True False)) [WithCodec ''video/AV1'']
        = Inr (i, out') \<and> isAV1 i \<and> \<not> isVP8 i \<and>
      content out' =
        [68, 75, 73, 70, 0, 0, 32, 0, 65, 86, 48, 49, 128, 2, 224, 1,
         24, 0, 0, 0, 1, 0, 0, 0, 132, 3, 0, 0, 0, 0, 0, 0])"
proof -
  have a: "apply_options [WithCodec ''video/AV1''] (zero_writer demo_ext)
     = Inr ((zero_writer demo_ext)\<lparr>isAV1 := True\<rparr>)"
    by (simp add: zero_writer_def mimeTypeVP8_def mimeTypeAV1_def)
  have b: "writesLeft (new_sink True False) \<noteq> Some 0"
    "offset (new_sink True False) = length (content (new_sink True False))"
    by (simp_all add: new_sink_def)
  have n: "NewWith demo_ext (Some (new_sink True False)) [WithCodec ''video/AV1''] =
      Inr ((zero_writer demo_ext)\<lparr>isAV1 := True\<rparr>,
           snd (sink_Write (new_sink True False)
                  (header_bytes ((zero_writer demo_ext)\<lparr>isAV1 := True\<rparr>))))"
    by (simp add: NewWith_def writeHeader_def sink_Write_def new_sink_def zero_writer_def
        mimeTypeVP8_def mimeTypeAV1_def Let_def)
  from NewWith_file_header
    [of demo_ext "[WithCodec ''video/AV1'']" "(zero_writer demo_ext)\<lparr>isAV1 := True\<rparr>"
        "new_sink True False"] a b
  obtain i out' where r:
    "NewWith demo_ext (Some (new_sink True False)) [WithCodec ''video/AV1''] = Inr (i, out')"
    "isVP8 i \<noteq> isAV1 i"
    "content out' =
         content (new_sink True False) @ string_bytes ''DKIF'' @ little_endian 2 0 @
         little_endian 2 32 @ string_bytes (if isVP8 i then ''VP80'' else ''AV01'') @
         little_endian 2 640 @ little_endian 2 480 @ little_endian 4 24 @
         little_endian 4 1 @ little_endian 4 900 @ little_endian 4 0"
    by blast
  from r(1) n have i: "i = (zero_writer demo_ext)\<lparr>isAV1 := True\<rparr>" by simp
  then have f: "isAV1 i" "\<not> isVP8 i" by (simp_all add: zero_writer_def)
  from r(3) f have "content out' =
        [68, 75, 73, 70, 0, 0, 32, 0, 65, 86, 48, 49, 128, 2, 224, 1,
         24, 0, 0, 0, 1, 0, 0, 0, 132, 3, 0, 0, 0, 0, 0, 0]"
    by (simp add: new_sink_def string_bytes_def little_endian_2 little_endian_4)
  with a b r(1) f show ?thesis by blast
qed

text \<open>
  C9. The codec is bound once, at construction. WithCodec applied to a writer that has a
  codec fails with errCodecAlreadySet, whatever the mime type; applied to a writer
  without a codec, a mime type other than video/VP8 and video/AV1 fails with
  errNoSuchCodec. When no option selects a codec (the options only set clock rates) and
  the header can be written, NewWith binds VP8, and the clock rate is 90000 when the
  options left it at 0 and the rate of the last option otherwise.
\<close>

theorem codec_binding:
  "(isVP8 i \<or> isAV1 i \<longrightarrow> apply_option (WithCodec mimeType) i = Inl errCodecAlreadySet) \<and>
   (\<not> isVP8 i \<and> \<not> isAV1 i \<and> mimeType \<noteq> ''video/VP8'' \<and> mimeType \<noteq> ''video/AV1'' \<longrightarrow>
      apply_option (WithCodec mimeType) i = Inl errNoSuchCodec) \<and>
   (writesLeft out \<noteq> Some 0 \<longrightarrow>
      (\<exists>w out'. NewWith ext (Some out) (map WithClockRate rates) = Inr (w, out') \<and>
         isVP8 w \<and> \<not> isAV1 w \<and>
         clockRate w = (if rates = [] \<or> last rates = 0 then 90000 else last rates)))"
proof (intro conjI impI)
  assume "isVP8 i \<or> isAV1 i"
  then show "apply_option (WithCodec mimeType) i = Inl errCodecAlreadySet"
    by auto
next
  assume "\<not> isVP8 i \<and> \<not> isAV1 i \<and> mimeType \<noteq> ''video/VP8'' \<and> mimeType \<noteq> ''video/AV1''"
  then show "apply_option (WithCodec mimeType) i = Inl errNoSuchCodec"
    by (simp add: mimeTypeVP8_def mimeTypeAV1_def)
next
  assume "writesLeft out \<noteq> Some 0"
  then show "\<exists>w out'. NewWith ext (Some out) (map WithClockRate rates) = Inr (w, out') \<and>
         isVP8 w \<and> \<not> isAV1 w \<and>
         clockRate w = (if rates = [] \<or> last rates = 0 then 90000 else last rates)"
    by (simp add: NewWith_def apply_options_clock_rates writeHeader_def sink_Write_def
        zero_writer_def defaultVP8ClockRate_def Let_def)
qed

theorem codec_binding_witness:
  "(isVP8 ((zero_writer demo_ext)\<lparr>isAV1 := True\<rparr>) \<or>
    isAV1 ((zero_writer demo_ext)\<lparr>isAV1 := True\<rparr>)) \<and>
   apply_option (WithCodec ''video/VP8'') ((zero_writer demo_ext)\<lparr>isAV1 := True\<rparr>)
     = Inl errCodecAlreadySet \<and>
   \<not> isVP8 (zero_writer demo_ext) \<and> \<not> isAV1 (zero_writer demo_ext) \<and>
   ''video/H264'' \<noteq> ''video/VP8'' \<and> ''video/H264'' \<noteq> ''video/AV1'' \<and>
   apply_option (WithCodec ''video/H264'') (zero_writer demo_ext) = Inl errNoSuchCodec \<and>
   writesLeft (new_sink False False) \<noteq> Some 0 \<and>
   (\<exists>w out'. NewWith demo_ext (Some (new_sink False False)) (map WithClockRate [0, 48000])
        = Inr (w, out') \<and> isVP8 w \<and> \<not> isAV1 w \<and> clockRate w = 48000)"
  using codec_binding
    [of "(zero_writer demo_ext)\<lparr>isAV1 := True\<rparr>" "''video/VP8''" "new_sink False False"
        demo_ext "[0, 48000]"]
    codec_binding
    [of "zero_writer demo_ext" "''video/H264''" "new_sink False False" demo_ext "[]"]
  by (simp add: zero_writer_def new_sink_def)

text \<open>
  C10. WriteRTP, called on an open writer with a packet whose payload is empty, returns
  no error and leaves the writer and the sink exactly as they were: nothing is parsed,
  nothing is written, and the frame buffer, the keyframe flag, the timestamps and the
  frame counter keep their values.
\<close>

theorem WriteRTP_empty_payload:
  "ioWriter i \<Longrightarrow> Payload pkt = [] \<Longrightarrow> WriteRTP ext pkt i out = (None, i, out)"
  by (simp add: WriteRTP_def)

theorem WriteRTP_empty_payload_witness:
  "ioWriter (zero_writer demo_ext) \<and>
   Payload \<lparr>Marker = True, Timestamp = 7, Payload = []\<rparr> = [] \<and>
   WriteRTP demo_ext \<lparr>Marker = True, Timestamp = 7, Payload = []\<rparr>
     (zero_writer demo_ext) (new_sink False False)
   = (None, zero_writer demo_ext, new_sink False False)"
  using WriteRTP_empty_payload
    [of "zero_writer demo_ext" "\<lparr>Marker = True, Timestamp = 7, Payload = []\<rparr>"
        demo_ext "new_sink False False"]
  by (simp add: zero_writer_def)

end
